theory Spec2Isabelle
  imports Main "HOL-Library.Sublist"
begin

section \<open>setup-helm: version resolution and tool acquisition (src/run.ts)\<close>

text \<open>
  The action is one TypeScript file, \<^verbatim>\<open>src/run.ts\<close>. Its functions are embedded as HOL
  functions of the same names. What the program reads from outside (action inputs,
  environment variables, network replies, the behaviour of the \<^verbatim>\<open>os\<close>, \<^verbatim>\<open>path\<close>,
  \<^verbatim>\<open>semver\<close> and \<^verbatim>\<open>@actions/tool-cache\<close> packages) is a record \<open>env\<close> passed to
  every function; what it changes on the host (files, the tool cache, the sequence of
  effects) is a record \<open>world\<close> that is passed in and returned. A thrown \<^verbatim>\<open>Error\<close> is
  the left summand of a sum type; an error thrown inside a library call, whose text the
  program never looks at, carries a fixed text. The calls \<^verbatim>\<open>core.debug\<close>,
  \<^verbatim>\<open>core.warning\<close> and \<^verbatim>\<open>console.log\<close> only write log text and are left out.
\<close>

subsection \<open>Strings\<close>

text \<open>
  JavaScript strings are sequences of UTF-16 code units; here a string is a list of
  8-bit characters and \<^verbatim>\<open>toLocaleLowerCase\<close> is its action on ASCII letters. Every
  literal the program compares against (\<^verbatim>\<open>latest\<close>, \<^verbatim>\<open>v\<close>, \<^verbatim>\<open>v2\<close>, \<^verbatim>\<open>v3\<close>,
  \<^verbatim>\<open>rc\<close>) is ASCII.
\<close>

definition toLowerChar :: "char \<Rightarrow> char" where
  "toLowerChar c =
     (case map_of (zip ''ABCDEFGHIJKLMNOPQRSTUVWXYZ'' ''abcdefghijklmnopqrstuvwxyz'') c of
        Some l \<Rightarrow> l
      | None \<Rightarrow> c)"

definition toLocaleLowerCase :: "string \<Rightarrow> string" where
  "toLocaleLowerCase s = map toLowerChar s"

text \<open>\<^verbatim>\<open>s.startsWith(p)\<close>\<close>

definition startsWith :: "string \<Rightarrow> string \<Rightarrow> bool" where
  "startsWith s p = prefix p s"

text \<open>\<^verbatim>\<open>s.indexOf(p)\<close>: the index of the first occurrence of \<open>p\<close> in \<open>s\<close>, or -1.\<close>

fun indexOf :: "string \<Rightarrow> string \<Rightarrow> int" where
  "indexOf [] p = (if p = [] then 0 else - 1)"
| "indexOf (c # cs) p =
     (if prefix p (c # cs) then 0
      else (let i = indexOf cs p in if i = - 1 then - 1 else i + 1))"

subsection \<open>Errors, files and effects\<close>

datatype error = Error string

text \<open>A directory tree as \<^verbatim>\<open>readdirSync\<close> and \<^verbatim>\<open>statSync\<close> show it: the entries of a
  directory in listing order, each a plain file or a directory.\<close>

datatype node = File | Directory "(string \<times> node) list"

text \<open>What a URL serves, as far as the program looks at it: a JSON array of release
  objects, each with its \<^verbatim>\<open>tag_name\<close> (\<open>None\<close> for an element that is null or has no
  such field), a zip archive with the tree it unpacks to, or anything else.\<close>

datatype content =
    JsonReleases "string option list"
  | ZipArchive "(string \<times> node) list"
  | OtherContent

datatype fsobject = Downloaded content | Folder "(string \<times> node) list"

datatype event =
    Download string
  | ExtractZip string
  | CacheLookup string string
  | CacheDir string string string
  | Chmod string
  | AddPath string
  | SetOutput string string

record env =
  os_type :: string
  path_join :: "string \<Rightarrow> string \<Rightarrow> string"
  path_dirname :: "string \<Rightarrow> string"
  semver_clean :: "string \<Rightarrow> string option"
  semver_gt :: "string \<Rightarrow> string \<Rightarrow> bool"
  semver_valid :: "string \<Rightarrow> bool"
  semver_satisfies :: "string \<Rightarrow> string \<Rightarrow> bool"
  getInput :: "string \<Rightarrow> error + string"
  process_env :: "string \<Rightarrow> string option"
  graphql_releases :: "string \<Rightarrow> error + string list"
  remote :: "string \<Rightarrow> error + content"
  download_dest :: "string \<Rightarrow> string"
  extract_dest :: "string \<Rightarrow> string"
  cache_dest :: "string \<Rightarrow> string \<Rightarrow> string"

record world =
  files :: "string \<Rightarrow> fsobject option"
  tool_dirs :: "string \<Rightarrow> string list"
  trace :: "event list"

text \<open>
  The fields of \<open>env\<close>:
  \<^item> \<open>os_type\<close> is \<^verbatim>\<open>os.type()\<close>; \<open>path_join\<close> and \<open>path_dirname\<close> are \<^verbatim>\<open>path.join\<close>
    (of a directory and an entry name) and \<^verbatim>\<open>path.dirname\<close>;
  \<^item> \<open>semver_clean\<close> is \<^verbatim>\<open>semver.clean\<close> (\<open>None\<close> for null), \<open>semver_gt\<close> is
    \<^verbatim>\<open>semver.gt\<close> on two valid versions, \<open>semver_valid v\<close> is
    \<^verbatim>\<open>semver.valid(v) != null\<close> and \<open>semver_satisfies\<close> is \<^verbatim>\<open>semver.satisfies\<close>;
  \<^item> \<open>getInput name\<close> is \<^verbatim>\<open>core.getInput(name, {required: true})\<close>, which throws when
    the input is not supplied; \<open>process_env\<close> is \<^verbatim>\<open>process.env\<close>;
  \<^item> \<open>graphql_releases token\<close> is the reply to the release query sent with that token:
    the tag names of \<^verbatim>\<open>repository.releases.nodes\<close>, or the error the call rejects with;
  \<^item> \<open>remote url\<close> is what \<^verbatim>\<open>toolCache.downloadTool(url)\<close> fetches, or the error it
    throws;
  \<^item> \<open>download_dest\<close> and \<open>extract_dest\<close> are the places the tool-cache package puts a
    download and an extraction; \<open>cache_dest tool folder\<close> is the directory of the cache
    for a tool and a version folder (cache root, tool, folder, architecture).

  The fields of \<open>world\<close>: \<open>files\<close> maps a path to what is there, \<open>tool_dirs tool\<close> lists
  the version folders under the tool's cache directory, and \<open>trace\<close> is the sequence of
  effects so far.
\<close>

subsection \<open>Constants\<close>

definition helmToolName :: string where
  "helmToolName = ''helm''"

definition stableHelmVersion :: string where
  "stableHelmVersion = ''v3.2.1''"

definition stableHelm3Version :: string where
  "stableHelm3Version = ''v3.5.3''"

definition stableHelm2Version :: string where
  "stableHelm2Version = ''v2.17.0''"

definition LATEST_HELM2_VERSION :: string where
  "LATEST_HELM2_VERSION = ''2.*''"

definition LATEST_HELM3_VERSION :: string where
  "LATEST_HELM3_VERSION = ''3.*''"

definition helmAllReleasesUrl :: string where
  "helmAllReleasesUrl = ''https://api.github.com/repos/helm/helm/releases''"

subsection \<open>Platform helpers\<close>

definition getExecutableExtension :: "env \<Rightarrow> string" where
  "getExecutableExtension E = (if startsWith (os_type E) ''Win'' then ''.exe'' else [])"

definition getHelmDownloadURL :: "env \<Rightarrow> string \<Rightarrow> string" where
  "getHelmDownloadURL E version =
     (if os_type E = ''Linux'' then ''https://get.helm.sh/helm-'' @ version @ ''-linux-amd64.zip''
      else if os_type E = ''Darwin'' then ''https://get.helm.sh/helm-'' @ version @ ''-darwin-amd64.zip''
      else ''https://get.helm.sh/helm-'' @ version @ ''-windows-amd64.zip'')"

subsection \<open>The tool-cache and file-system calls\<close>

definition emit :: "event \<Rightarrow> world \<Rightarrow> world" where
  "emit e w = w\<lparr>trace := trace w @ [e]\<rparr>"

text \<open>\<^verbatim>\<open>toolCache.downloadTool(url)\<close>: fetches the URL into a temporary file and returns
  its path, or throws.\<close>

definition downloadTool :: "env \<Rightarrow> world \<Rightarrow> string \<Rightarrow> (error + string) \<times> world" where
  "downloadTool E w url =
     (let w1 = emit (Download url) w in
      case remote E url of
        Inl e \<Rightarrow> (Inl e, w1)
      | Inr c \<Rightarrow> (Inr (download_dest E url),
                  w1\<lparr>files := (files w1)(download_dest E url \<mapsto> Downloaded c)\<rparr>))"

text \<open>\<^verbatim>\<open>JSON.parse(fs.readFileSync(path, 'utf8').toString().trim())\<close> followed by the
  \<^verbatim>\<open>forEach\<close> call, which throws when the parsed value is not an array.\<close>

definition readReleases :: "world \<Rightarrow> string \<Rightarrow> error + string option list" where
  "readReleases w p =
     (case files w p of
        Some (Downloaded (JsonReleases rs)) \<Rightarrow> Inr rs
      | _ \<Rightarrow> Inl (Error ''not a JSON array''))"

text \<open>\<^verbatim>\<open>fs.chmodSync(path, '777')\<close>. Each call site passes a path that the step before
  has produced or found on disk; permissions are not modelled.\<close>

definition chmodSync :: "world \<Rightarrow> string \<Rightarrow> world" where
  "chmodSync w p = emit (Chmod p) w"

text \<open>\<^verbatim>\<open>toolCache.extractZip(file)\<close>: unpacks into a new directory and returns its path,
  or throws when the file is not a zip archive.\<close>

definition extractZip :: "env \<Rightarrow> world \<Rightarrow> string \<Rightarrow> (error + string) \<times> world" where
  "extractZip E w p =
     (let w1 = emit (ExtractZip p) w in
      case files w p of
        Some (Downloaded (ZipArchive entries)) \<Rightarrow>
          (Inr (extract_dest E p), w1\<lparr>files := (files w1)(extract_dest E p \<mapsto> Folder entries)\<rparr>)
      | _ \<Rightarrow> (Inl (Error ''cannot extract''), w1))"

text \<open>
  The tool cache of \<^verbatim>\<open>@actions/tool-cache\<close>, after the package's \<^verbatim>\<open>cacheDir\<close>,
  \<^verbatim>\<open>find\<close>, \<^verbatim>\<open>findAllVersions\<close>, \<^verbatim>\<open>_isExplicitVersion\<close> and
  \<^verbatim>\<open>_evaluateVersions\<close>. A version is stored in the folder named by its cleaned form,
  or by the version itself when \<^verbatim>\<open>semver.clean\<close> rejects it. A lookup takes a version
  that cleans to a valid one as an exact key; any other key is a range, answered by the
  highest valid folder name present that satisfies it.
\<close>

text \<open>\<^verbatim>\<open>semver.clean(version) || ''\<close> and \<^verbatim>\<open>semver.clean(version) || version\<close>\<close>

definition clean_or_empty :: "env \<Rightarrow> string \<Rightarrow> string" where
  "clean_or_empty E version = (case semver_clean E version of None \<Rightarrow> [] | Some c \<Rightarrow> c)"

definition cache_folder :: "env \<Rightarrow> string \<Rightarrow> string" where
  "cache_folder E version =
     (case semver_clean E version of
        None \<Rightarrow> version
      | Some c \<Rightarrow> if c = [] then version else c)"

definition isExplicitVersion :: "env \<Rightarrow> string \<Rightarrow> bool" where
  "isExplicitVersion E versionSpec = semver_valid E (clean_or_empty E versionSpec)"

text \<open>A cached directory is there, with its completion marker.\<close>

definition is_cached_dir :: "world \<Rightarrow> string \<Rightarrow> bool" where
  "is_cached_dir w p = (case files w p of Some (Folder entries) \<Rightarrow> True | _ \<Rightarrow> False)"

text \<open>\<^verbatim>\<open>toolCache.cacheDir(sourceDir, tool, version)\<close>: copies the directory into the
  version's folder of the cache and returns the cached path.\<close>

definition cacheDir :: "env \<Rightarrow> world \<Rightarrow> string \<Rightarrow> string \<Rightarrow> string \<Rightarrow> (error + string) \<times> world" where
  "cacheDir E w sourceDir tool version =
     (let w1 = emit (CacheDir sourceDir tool version) w;
          folder = cache_folder E version
      in case files w sourceDir of
           Some (Folder entries) \<Rightarrow>
             (Inr (cache_dest E tool folder),
              w1\<lparr>files := (files w1)(cache_dest E tool folder \<mapsto> Folder entries),
                 tool_dirs := (tool_dirs w1)
                   (tool := if folder \<in> set (tool_dirs w1 tool) then tool_dirs w1 tool
                            else tool_dirs w1 tool @ [folder])\<rparr>)
         | _ \<Rightarrow> (Inl (Error ''sourceDir is not a directory''), w1))"

definition findAllVersions :: "env \<Rightarrow> world \<Rightarrow> string \<Rightarrow> string list" where
  "findAllVersions E w toolName =
     filter (\<lambda>child. isExplicitVersion E child \<and> is_cached_dir w (cache_dest E toolName child))
       (tool_dirs w toolName)"

text \<open>\<^verbatim>\<open>_evaluateVersions\<close> sorts the versions upwards with \<^verbatim>\<open>semver.gt\<close> as the
  comparison and returns the first from the top that satisfies the range, or the empty
  string.\<close>

fun insert_version :: "env \<Rightarrow> string \<Rightarrow> string list \<Rightarrow> string list" where
  "insert_version E a [] = [a]"
| "insert_version E a (b # bs) =
     (if semver_gt E a b then b # insert_version E a bs else a # b # bs)"

definition sort_versions :: "env \<Rightarrow> string list \<Rightarrow> string list" where
  "sort_versions E versions = foldr (insert_version E) versions []"

definition evaluateVersions :: "env \<Rightarrow> string list \<Rightarrow> string \<Rightarrow> string" where
  "evaluateVersions E versions versionSpec =
     (case find (\<lambda>potential. semver_satisfies E potential versionSpec)
             (rev (sort_versions E versions)) of
        None \<Rightarrow> []
      | Some potential \<Rightarrow> potential)"

text \<open>\<^verbatim>\<open>toolCache.find(toolName, versionSpec)\<close>: the cached path, or the empty string
  when there is none; it throws when either argument is empty.\<close>

definition toolCache_find :: "env \<Rightarrow> world \<Rightarrow> string \<Rightarrow> string \<Rightarrow> (error + string) \<times> world" where
  "toolCache_find E w toolName versionSpec =
     (let w1 = emit (CacheLookup toolName versionSpec) w in
      if toolName = [] then (Inl (Error ''toolName parameter is required''), w1)
      else if versionSpec = [] then (Inl (Error ''versionSpec parameter is required''), w1)
      else
        (let spec = (if isExplicitVersion E versionSpec then versionSpec
                     else evaluateVersions E (findAllVersions E w toolName) versionSpec)
         in if spec = [] then (Inr [], w1)
            else if is_cached_dir w (cache_dest E toolName (clean_or_empty E spec))
            then (Inr (cache_dest E toolName (clean_or_empty E spec)), w1)
            else (Inr [], w1)))"

subsection \<open>Global discovery\<close>

text \<open>The body of the \<^verbatim>\<open>forEach\<close> callback of \<^verbatim>\<open>getStableHelmVersion\<close>, run over
  the array with \<open>latestHelmVersion\<close> as the running value (\<open>None\<close> is null).
  \<^verbatim>\<open>semver.gt\<close> throws on a null argument.\<close>

fun forEach_response :: "env \<Rightarrow> string option list \<Rightarrow> string option \<Rightarrow> error + string option" where
  "forEach_response E [] latestHelmVersion = Inr latestHelmVersion"
| "forEach_response E (response # rest) latestHelmVersion =
     (case response of
        None \<Rightarrow> forEach_response E rest latestHelmVersion
      | Some tag_name \<Rightarrow>
          if tag_name = [] then forEach_response E rest latestHelmVersion
          else
            (case semver_clean E tag_name of
               None \<Rightarrow> forEach_response E rest latestHelmVersion
             | Some currentHelmVerison \<Rightarrow>
                 if currentHelmVerison = [] then forEach_response E rest latestHelmVersion
                 else if indexOf currentHelmVerison ''rc'' = - 1 then
                   (case latestHelmVersion of
                      None \<Rightarrow> Inl (Error ''Invalid Version: null'')
                    | Some latest \<Rightarrow>
                        if semver_gt E currentHelmVerison latest
                        then forEach_response E rest (Some currentHelmVerison)
                        else forEach_response E rest latestHelmVersion)
                 else forEach_response E rest latestHelmVersion))"

text \<open>\<^verbatim>\<open>"v" + latestHelmVersion\<close>\<close>

definition v_plus :: "string option \<Rightarrow> string" where
  "v_plus latestHelmVersion =
     ''v'' @ (case latestHelmVersion of None \<Rightarrow> ''null'' | Some l \<Rightarrow> l)"

definition getStableHelmVersion :: "env \<Rightarrow> world \<Rightarrow> string \<times> world" where
  "getStableHelmVersion E w =
     (case downloadTool E w helmAllReleasesUrl of
        (Inl e, w1) \<Rightarrow> (stableHelmVersion, w1)
      | (Inr downloadPath, w1) \<Rightarrow>
          (case readReleases w1 downloadPath of
             Inl e \<Rightarrow> (stableHelmVersion, w1)
           | Inr responseArray \<Rightarrow>
               (case forEach_response E responseArray (semver_clean E stableHelmVersion) of
                  Inl e \<Rightarrow> (stableHelmVersion, w1)
                | Inr latestHelmVersion \<Rightarrow> (v_plus latestHelmVersion, w1))))"

subsection \<open>Family-scoped discovery\<close>

definition getStableHelmVersionFor :: "string \<Rightarrow> string" where
  "getStableHelmVersionFor type = (if type = ''v2'' then stableHelm2Version else stableHelm3Version)"

definition isValidVersion :: "string \<Rightarrow> string \<Rightarrow> bool" where
  "isValidVersion version type =
     (if \<not> startsWith (toLocaleLowerCase version) type then False
      else indexOf version ''rc'' = - 1)"

definition getLatestHelmVersionFor :: "env \<Rightarrow> string \<Rightarrow> error + string" where
  "getLatestHelmVersionFor E type =
     (case getInput E ''token'' of
        Inl e \<Rightarrow> Inl e
      | Inr token \<Rightarrow>
          (case graphql_releases E token of
             Inl err \<Rightarrow> Inr (getStableHelmVersionFor type)
           | Inr nodes \<Rightarrow>
               (let releases = rev nodes in
                case find (\<lambda>release. isValidVersion release type) releases of
                  Some latestValidRelease \<Rightarrow> Inr latestValidRelease
                | None \<Rightarrow> Inr (getStableHelmVersionFor type))))"

subsection \<open>The executable locator\<close>

fun walkSync :: "env \<Rightarrow> string \<Rightarrow> (string \<times> node) list \<Rightarrow> string list \<Rightarrow> string \<Rightarrow> string list" where
  "walkSync E dir [] filelist fileToFind = filelist"
| "walkSync E dir ((file, Directory sub) # rest) filelist fileToFind =
     walkSync E dir rest (walkSync E (path_join E dir file) sub filelist fileToFind) fileToFind"
| "walkSync E dir ((file, File) # rest) filelist fileToFind =
     walkSync E dir rest
       (if file = fileToFind then filelist @ [path_join E dir file] else filelist) fileToFind"

text \<open>\<open>findHelm\<close>: the first call of \<open>walkSync\<close> reads the root directory, and
  \<^verbatim>\<open>readdirSync\<close> throws when it is not there.\<close>

definition findHelm :: "env \<Rightarrow> world \<Rightarrow> string \<Rightarrow> (error + string) \<times> world" where
  "findHelm E w rootFolder =
     (let w1 = chmodSync w rootFolder in
      case files w1 rootFolder of
        Some (Folder entries) \<Rightarrow>
          (case walkSync E rootFolder entries [] (helmToolName @ getExecutableExtension E) of
             [] \<Rightarrow> (Inl (Error (''Helm executable not found in path '' @ rootFolder)), w1)
           | f # fs \<Rightarrow> (Inr f, w1))
      | _ \<Rightarrow> (Inl (Error (''ENOENT: no such file or directory, scandir '' @ rootFolder)), w1))"

subsection \<open>Acquisition\<close>

text \<open>The cache-miss branch of \<open>downloadHelm\<close>: download, chmod, extract, register.\<close>

definition fetchAndCache :: "env \<Rightarrow> world \<Rightarrow> string \<Rightarrow> (error + string) \<times> world" where
  "fetchAndCache E w version =
     (case downloadTool E w (getHelmDownloadURL E version) of
        (Inl exception, w1) \<Rightarrow>
          (Inl (Error (''Failed to download Helm from location '' @ getHelmDownloadURL E version)), w1)
      | (Inr helmDownloadPath, w1) \<Rightarrow>
          (case extractZip E (chmodSync w1 helmDownloadPath) helmDownloadPath of
             (Inl e, w2) \<Rightarrow> (Inl e, w2)
           | (Inr unzipedHelmPath, w2) \<Rightarrow> cacheDir E w2 unzipedHelmPath helmToolName version))"

definition downloadHelm :: "env \<Rightarrow> world \<Rightarrow> string \<Rightarrow> (error + string) \<times> world" where
  "downloadHelm E w version0 =
     (let (version, w1) = (if version0 = [] then getStableHelmVersion E w else (version0, w))
      in case toolCache_find E w1 helmToolName version of
           (Inl e, w2) \<Rightarrow> (Inl e, w2)
         | (Inr found, w2) \<Rightarrow>
             (case (if found = [] then fetchAndCache E w2 version else (Inr found, w2)) of
                (Inl e, w3) \<Rightarrow> (Inl e, w3)
              | (Inr cachedToolpath, w3) \<Rightarrow>
                  (case findHelm E w3 cachedToolpath of
                     (Inl e, w4) \<Rightarrow> (Inl e, w4)
                   | (Inr helmpath, w4) \<Rightarrow>
                       if helmpath = []
                       then (Inl (Error (''Helm executable not found in path '' @ cachedToolpath)), w4)
                       else (Inr helmpath, chmodSync w4 helmpath))))"

subsection \<open>The entry point\<close>

text \<open>The version resolver: the first \<^verbatim>\<open>if\<close> statement of \<open>run\<close>, with the value
  of the \<^verbatim>\<open>version\<close> input as its argument.\<close>

definition legacyMode :: "env \<Rightarrow> bool" where
  "legacyMode E = (process_env E ''HELM_INSTALLER_LEGACY_VERSIONING'' = Some ''true'')"

definition resolveVersion :: "env \<Rightarrow> world \<Rightarrow> string \<Rightarrow> (error + string) \<times> world" where
  "resolveVersion E w version =
     (if legacyMode E then
        (if toLocaleLowerCase version = ''latest''
         then (case getStableHelmVersion E w of (v, w1) \<Rightarrow> (Inr v, w1))
         else if \<not> startsWith (toLocaleLowerCase version) ''v'' then (Inr (''v'' @ version), w)
         else (Inr version, w))
      else
        (if toLocaleLowerCase version = ''latest'' \<or> version = LATEST_HELM3_VERSION
         then (getLatestHelmVersionFor E ''v3'', w)
         else if version = LATEST_HELM2_VERSION then (getLatestHelmVersionFor E ''v2'', w)
         else if \<not> startsWith (toLocaleLowerCase version) ''v'' then (Inr (''v'' @ version), w)
         else (Inr version, w)))"

text \<open>After acquisition: add the executable's directory to the search path unless
  \<^verbatim>\<open>PATH\<close> already starts with it (an unset \<^verbatim>\<open>PATH\<close> throws inside the
  \<^verbatim>\<open>try\<close> and is ignored), then set the output.\<close>

definition publish :: "env \<Rightarrow> world \<Rightarrow> string \<Rightarrow> world" where
  "publish E w cachedPath =
     (let w1 = (case process_env E ''PATH'' of
                  None \<Rightarrow> w
                | Some p \<Rightarrow>
                    if \<not> startsWith p (path_dirname E cachedPath)
                    then emit (AddPath (path_dirname E cachedPath)) w
                    else w)
      in emit (SetOutput ''helm-path'' cachedPath) w1)"

text \<open>\<open>run\<close> returns the resolved version and the executable's path, or the error that
  \<^verbatim>\<open>run().catch(core.setFailed)\<close> reports.\<close>

definition run :: "env \<Rightarrow> world \<Rightarrow> (error + string \<times> string) \<times> world" where
  "run E w =
     (case getInput E ''version'' of
        Inl e \<Rightarrow> (Inl e, w)
      | Inr version0 \<Rightarrow>
          (case resolveVersion E w version0 of
             (Inl e, w1) \<Rightarrow> (Inl e, w1)
           | (Inr version, w1) \<Rightarrow>
               (case downloadHelm E w1 version of
                  (Inl e, w2) \<Rightarrow> (Inl e, w2)
                | (Inr cachedPath, w2) \<Rightarrow> (Inr (version, cachedPath), publish E w2 cachedPath))))"


subsection \<open>Notions used to state the properties\<close>

text \<open>A directory tree holds a plain file of the given name, at any depth.\<close>

fun containsFile :: "(string \<times> node) list \<Rightarrow> string \<Rightarrow> bool" where
  "containsFile [] f = False"
| "containsFile ((name, Directory sub) # rest) f = (containsFile sub f \<or> containsFile rest f)"
| "containsFile ((name, File) # rest) f = (name = f \<or> containsFile rest f)"

text \<open>The effects a call has added to the trace.\<close>

definition new_events :: "world \<Rightarrow> world \<Rightarrow> event list" where
  "new_events w w' = drop (length (trace w)) (trace w')"

fun is_transfer :: "event \<Rightarrow> bool" where
  "is_transfer (Download url) = True"
| "is_transfer (ExtractZip p) = True"
| "is_transfer (CacheDir p tool version) = True"
| "is_transfer e = False"

text \<open>The cache key and the download URL an effect uses, if any.\<close>

fun cache_key_of :: "event \<Rightarrow> string option" where
  "cache_key_of (CacheLookup tool version) = Some version"
| "cache_key_of (CacheDir p tool version) = Some version"
| "cache_key_of e = None"

fun download_url_of :: "event \<Rightarrow> string option" where
  "download_url_of (Download url) = Some url"
| "download_url_of e = None"

text \<open>What the last steps of \<open>downloadHelm\<close> give on a cached directory with the
  given entries: the first match of the walk, or the not-found error.\<close>

definition located :: "env \<Rightarrow> string \<Rightarrow> (string \<times> node) list \<Rightarrow> error + string" where
  "located E rootFolder entries =
     (case walkSync E rootFolder entries [] (helmToolName @ getExecutableExtension E) of
        [] \<Rightarrow> Inl (Error (''Helm executable not found in path '' @ rootFolder))
      | f # fs \<Rightarrow>
          if f = [] then Inl (Error (''Helm executable not found in path '' @ rootFolder))
          else Inr f)"

subsection \<open>Sample environments\<close>

text \<open>A Linux runner whose release queries answer with three tags, with the semver
  package tabulated on the versions and ranges that occur.\<close>

definition sample_versions :: "(string \<times> nat) list" where
  "sample_versions =
     [(''2.17.0'', 21700), (''3.2.1'', 30201), (''3.5.0'', 30500), (''3.5.3'', 30503),
      (''3.6.0-rc.1'', 30599), (''9.9.9'', 90909)]"

definition sample_ranges :: "(string \<times> string) list" where
  "sample_ranges = [(''v3.*'', ''3.''), (''3.*'', ''3.''), (''v2.*'', ''2.''), (''2.*'', ''2.'')]"

definition sample_clean :: "string \<Rightarrow> string option" where
  "sample_clean s =
     (let t = dropWhile (\<lambda>c. c = CHR ''v'') s
      in case map_of sample_versions t of None \<Rightarrow> None | Some n \<Rightarrow> Some t)"

definition sample_gt :: "string \<Rightarrow> string \<Rightarrow> bool" where
  "sample_gt a b =
     (case map_of sample_versions a of
        None \<Rightarrow> False
      | Some m \<Rightarrow> (case map_of sample_versions b of None \<Rightarrow> False | Some n \<Rightarrow> n < m))"

definition sample_valid :: "string \<Rightarrow> bool" where
  "sample_valid v = (case map_of sample_versions v of None \<Rightarrow> False | Some n \<Rightarrow> True)"

definition sample_satisfies :: "string \<Rightarrow> string \<Rightarrow> bool" where
  "sample_satisfies v spec =
     (sample_valid v \<and>
      (case map_of sample_ranges spec of
         Some major \<Rightarrow> startsWith v major \<and> indexOf v ''-'' = - 1
       | None \<Rightarrow> sample_clean spec = Some v))"

definition input_missing :: "string \<Rightarrow> error" where
  "input_missing name = Error (''Input required and not supplied: '' @ name)"

definition helm_archive :: "(string \<times> node) list" where
  "helm_archive =
     [(''linux-amd64'', Directory [(''LICENSE'', File), (''README.md'', File), (''helm'', File)])]"

definition linux_env :: env where
  "linux_env =
     \<lparr>os_type = ''Linux'',
      path_join = (\<lambda>dir name. dir @ ''/'' @ name),
      path_dirname = (\<lambda>p. rev (drop 1 (dropWhile (\<lambda>c. c \<noteq> CHR ''/'') (rev p)))),
      semver_clean = sample_clean,
      semver_gt = sample_gt,
      semver_valid = sample_valid,
      semver_satisfies = sample_satisfies,
      getInput = (\<lambda>name. if name = ''version'' then Inr ''latest''
                          else if name = ''token'' then Inr ''secret''
                          else Inl (input_missing name)),
      process_env = (\<lambda>name. if name = ''PATH'' then Some ''/usr/bin'' else None),
      graphql_releases = (\<lambda>token. Inr [''v3.5.3'', ''v3.6.0-rc.1'', ''v3.5.0'']),
      remote = (\<lambda>url. if url = helmAllReleasesUrl
                       then Inr (JsonReleases [Some ''v3.5.3'', None, Some ''v3.6.0-rc.1'', Some ''v3.2.1''])
                       else if url = ''https://get.helm.sh/helm-v3.5.0-linux-amd64.zip''
                       then Inr (ZipArchive helm_archive)
                       else Inl (Error ''Unexpected HTTP response: 404'')),
      download_dest = (\<lambda>url. ''/tmp/download''),
      extract_dest = (\<lambda>p. ''/tmp/extract''),
      cache_dest = (\<lambda>tool folder. ''/opt/hostedtoolcache/'' @ tool @ ''/'' @ folder)\<rparr>"

text \<open>The same runner with legacy versioning switched on.\<close>

definition legacy_env :: env where
  "legacy_env =
     linux_env\<lparr>process_env :=
       (\<lambda>name. if name = ''HELM_INSTALLER_LEGACY_VERSIONING'' then Some ''true'' else None)\<rparr>"

text \<open>The same runner with no \<^verbatim>\<open>token\<close> input.\<close>

definition tokenless_env :: env where
  "tokenless_env =
     linux_env\<lparr>getInput :=
       (\<lambda>name. if name = ''version'' then Inr ''latest'' else Inl (input_missing name))\<rparr>"

text \<open>The same runner when the release query answers with a tag spelled "RC".\<close>

definition uppercase_rc_env :: env where
  "uppercase_rc_env =
     linux_env\<lparr>graphql_releases := (\<lambda>token. Inr [''v3.5.3'', ''v3.6.0-RC.1''])\<rparr>"

text \<open>The legacy runner when the release listing cannot be fetched, and the default
  runner when the release query is rejected.\<close>

definition offline_legacy_env :: env where
  "offline_legacy_env = legacy_env\<lparr>remote := (\<lambda>url. Inl (Error ''getaddrinfo ENOTFOUND''))\<rparr>"

definition unauthorized_env :: env where
  "unauthorized_env = linux_env\<lparr>graphql_releases := (\<lambda>token. Inl (Error ''Bad credentials''))\<rparr>"

text \<open>The runner asked for a version that was never released, and the runner when the
  download host serves something that is not a zip archive.\<close>

definition unreleased_env :: env where
  "unreleased_env =
     linux_env\<lparr>getInput :=
       (\<lambda>name. if name = ''version'' then Inr ''v9.9.9''
               else if name = ''token'' then Inr ''secret''
               else Inl (input_missing name))\<rparr>"


text \<open>The runner with a download host that serves the archive under every name.\<close>

definition mirror_env :: env where
  "mirror_env =
     linux_env\<lparr>remote :=
       (\<lambda>url. if url = helmAllReleasesUrl
              then Inr (JsonReleases [Some ''v3.5.3'', None, Some ''v3.6.0-rc.1'', Some ''v3.2.1''])
              else Inr (ZipArchive helm_archive))\<rparr>"

text \<open>A host with nothing downloaded or cached.\<close>

definition fresh_world :: world where
  "fresh_world = \<lparr>files = (\<lambda>p. None), tool_dirs = (\<lambda>tool. []), trace = []\<rparr>"

text \<open>A host whose cache holds a directory for version 3.5.0 with no executable in it,
  and a host whose cache holds the unpacked archive of version 3.5.0.\<close>

definition stale_world :: world where
  "stale_world =
     \<lparr>files = (\<lambda>p. if p = ''/opt/hostedtoolcache/helm/3.5.0''
                    then Some (Folder [(''README.md'', File)]) else None),
      tool_dirs = (\<lambda>tool. if tool = ''helm'' then [''3.5.0''] else []),
      trace = []\<rparr>"

definition warm_world :: world where
  "warm_world =
     \<lparr>files = (\<lambda>p. if p = ''/opt/hostedtoolcache/helm/3.5.0''
                    then Some (Folder helm_archive) else None),
      tool_dirs = (\<lambda>tool. if tool = ''helm'' then [''3.5.0''] else []),
      trace = []\<rparr>"


section \<open>Properties\<close>

subsection \<open>Strings and the directory walk\<close>

lemma indexOf_ge: "indexOf s p = - 1 \<or> 0 \<le> indexOf s p"
  by (induction s) (auto simp: Let_def)

lemma indexOf_sublist: "(indexOf s p = - 1) = (\<not> sublist p s)"
proof (induction s)
  case Nil
  then show ?case by auto
next
  case (Cons c cs)
  have ge: "indexOf cs p = - 1 \<or> 0 \<le> indexOf cs p" by (rule indexOf_ge)
  show ?case
  proof (cases "prefix p (c # cs)")
    case True
    then show ?thesis by (auto simp: sublist_Cons_right)
  next
    case False
    with Cons ge show ?thesis by (auto simp: Let_def sublist_Cons_right)
  qed
qed

lemma toLocaleLowerCase_Cons:
  "toLocaleLowerCase (c # s) = toLowerChar c # toLocaleLowerCase s"
  by (simp add: toLocaleLowerCase_def)

lemma toLowerChar_v: "toLowerChar CHR ''v'' = CHR ''v''"
  by (simp add: toLowerChar_def)

lemma walkSync_acc: "walkSync E dir entries acc f = acc @ walkSync E dir entries [] f"
proof (induction entries f arbitrary: dir acc rule: containsFile.induct)
  case (1 f)
  then show ?case by simp
next
  case (2 name sub rest f)
  let ?inner = "walkSync E (path_join E dir name) sub [] f"
  have i: "walkSync E (path_join E dir name) sub acc f = acc @ ?inner"
    by (rule 2(1))
  have a: "walkSync E dir rest (acc @ ?inner) f = (acc @ ?inner) @ walkSync E dir rest [] f"
    by (rule 2(2))
  have b: "walkSync E dir rest ?inner f = ?inner @ walkSync E dir rest [] f"
    by (rule 2(2))
  show ?case by (simp only: walkSync.simps i a b append_assoc)
next
  case (3 name rest f)
  have a: "walkSync E dir rest (acc @ [path_join E dir name]) f =
           (acc @ [path_join E dir name]) @ walkSync E dir rest [] f"
    by (rule 3)
  have b: "walkSync E dir rest [path_join E dir name] f =
           [path_join E dir name] @ walkSync E dir rest [] f"
    by (rule 3)
  have c: "walkSync E dir rest acc f = acc @ walkSync E dir rest [] f"
    by (rule 3)
  show ?case
    using a b c by (cases "name = f") simp_all
qed

lemma walkSync_Directory:
  "walkSync E dir ((name, Directory sub) # rest) [] f =
     walkSync E (path_join E dir name) sub [] f @ walkSync E dir rest [] f"
  using walkSync_acc [of E dir rest "walkSync E (path_join E dir name) sub [] f" f]
  by (simp only: walkSync.simps)

lemma walkSync_File:
  "walkSync E dir ((name, File) # rest) [] f =
     (if name = f then [path_join E dir name] else []) @ walkSync E dir rest [] f"
  using walkSync_acc [of E dir rest "[path_join E dir name]" f]
  by (cases "name = f") simp_all

lemma walkSync_empty: "(walkSync E dir entries [] f = []) = (\<not> containsFile entries f)"
proof (induction entries f arbitrary: dir rule: containsFile.induct)
  case (1 f)
  then show ?case by simp
next
  case (2 name sub rest f)
  then show ?case
    by (simp only: walkSync_Directory containsFile.simps append_is_Nil_conv de_Morgan_disj)
next
  case (3 name rest f)
  then show ?case by (simp only: walkSync_File containsFile.simps) simp
qed

subsection \<open>Version resolution\<close>

text \<open>
  C6. In legacy mode a token that does not start with "v" (compared case-insensitively)
  and is not "latest" (compared case-insensitively) resolves to "v" followed by the
  token, and a token that starts with "v" or "V" resolves to itself. Neither case touches
  the host.
\<close>

theorem legacy_resolution:
  assumes "legacyMode E"
  shows "(\<not> startsWith (toLocaleLowerCase version) ''v'' \<and> toLocaleLowerCase version \<noteq> ''latest''
            \<longrightarrow> resolveVersion E w version = (Inr (''v'' @ version), w)) \<and>
         (startsWith (toLocaleLowerCase version) ''v''
            \<longrightarrow> resolveVersion E w version = (Inr version, w))"
proof -
  have "\<not> startsWith ''latest'' ''v''"
    by (simp add: startsWith_def)
  then have "startsWith (toLocaleLowerCase version) ''v'' \<Longrightarrow> toLocaleLowerCase version \<noteq> ''latest''"
    by auto
  with assms show ?thesis
    by (auto simp: resolveVersion_def)
qed

theorem legacy_resolution_witness:
  "legacyMode legacy_env \<and>
   resolveVersion legacy_env fresh_world ''2.17.0'' = (Inr ''v2.17.0'', fresh_world) \<and>
   resolveVersion legacy_env fresh_world ''3.*'' = (Inr ''v3.*'', fresh_world) \<and>
   resolveVersion legacy_env fresh_world ''V3.5.0'' = (Inr ''V3.5.0'', fresh_world)"
proof -
  have l: "legacyMode legacy_env"
    by (simp add: legacyMode_def legacy_env_def linux_env_def)
  have a: "\<not> startsWith (toLocaleLowerCase ''2.17.0'') ''v'' \<and> toLocaleLowerCase ''2.17.0'' \<noteq> ''latest''"
    by (simp add: startsWith_def toLocaleLowerCase_def toLowerChar_def)
  have b: "\<not> startsWith (toLocaleLowerCase ''3.*'') ''v'' \<and> toLocaleLowerCase ''3.*'' \<noteq> ''latest''"
    by (simp add: startsWith_def toLocaleLowerCase_def toLowerChar_def)
  have c: "startsWith (toLocaleLowerCase ''V3.5.0'') ''v''"
    by (simp add: startsWith_def toLocaleLowerCase_def toLowerChar_def)
  show ?thesis
    using l a b c
      legacy_resolution [OF l, of "''2.17.0''" fresh_world]
      legacy_resolution [OF l, of "''3.*''" fresh_world]
      legacy_resolution [OF l, of "''V3.5.0''" fresh_world]
    by simp
qed


subsection \<open>Family-scoped discovery\<close>

lemma isValidVersion_iff:
  "isValidVersion tag type = (startsWith (toLocaleLowerCase tag) type \<and> \<not> sublist ''rc'' tag)"
  by (simp add: isValidVersion_def indexOf_sublist)

lemma default_is_stable: "\<not> sublist ''rc'' (getStableHelmVersionFor type)"
proof -
  have "indexOf (getStableHelmVersionFor type) ''rc'' = - 1"
    by (simp add: getStableHelmVersionFor_def stableHelm2Version_def stableHelm3Version_def)
  then show ?thesis by (simp add: indexOf_sublist)
qed

lemma default_in_family:
  "type = ''v2'' \<or> type = ''v3'' \<Longrightarrow>
   startsWith (toLocaleLowerCase (getStableHelmVersionFor type)) type"
  by (auto simp: getStableHelmVersionFor_def stableHelm2Version_def stableHelm3Version_def
      startsWith_def toLocaleLowerCase_def toLowerChar_def)

lemma find_append_cases:
  "find P (xs @ ys) = (case find P xs of None \<Rightarrow> find P ys | Some x \<Rightarrow> Some x)"
  by (induction xs) auto

lemma find_SomeD: "find P xs = Some x \<Longrightarrow> P x \<and> x \<in> set xs"
  by (induction xs) (auto split: if_splits)

lemma getLatestHelmVersionFor_cases:
  assumes "getLatestHelmVersionFor E type = Inr tag"
  shows "tag = getStableHelmVersionFor type \<or>
         (isValidVersion tag type \<and>
          (\<exists>token nodes. getInput E ''token'' = Inr token \<and>
             graphql_releases E token = Inr nodes \<and> tag \<in> set nodes))"
proof (cases "getInput E ''token''")
  case (Inl e)
  with assms show ?thesis by (simp add: getLatestHelmVersionFor_def)
next
  case token: (Inr token)
  show ?thesis
  proof (cases "graphql_releases E token")
    case (Inl err)
    with assms token show ?thesis by (simp add: getLatestHelmVersionFor_def)
  next
    case nodes: (Inr nodes)
    show ?thesis
    proof (cases "find (\<lambda>release. isValidVersion release type) (rev nodes)")
      case None
      with assms token nodes show ?thesis by (simp add: getLatestHelmVersionFor_def)
    next
      case (Some r)
      with assms token nodes have r: "r = tag" by (simp add: getLatestHelmVersionFor_def)
      from Some have "isValidVersion r type \<and> r \<in> set (rev nodes)"
        by (rule find_SomeD)
      with r token nodes show ?thesis by auto
    qed
  qed
qed

text \<open>
  C7. Family-scoped discovery never returns a tag that contains "rc", for every
  environment and listing. A tag is accepted exactly when its lower-cased form starts
  with the family prefix and it does not contain "rc"; whatever discovery returns is the
  family's default or an accepted tag of the listing, and for the two families the
  program asks for ("v2", "v3") the result starts with the family prefix when compared
  case-insensitively.
\<close>

theorem family_discovery_selects_stable_tags:
  "(isValidVersion tag type \<longleftrightarrow>
      startsWith (toLocaleLowerCase tag) type \<and> \<not> sublist ''rc'' tag) \<and>
   (sublist ''rc'' tag \<longrightarrow> getLatestHelmVersionFor E type \<noteq> Inr tag) \<and>
   (getLatestHelmVersionFor E type = Inr tag \<longrightarrow>
      tag = getStableHelmVersionFor type \<or>
      (startsWith (toLocaleLowerCase tag) type \<and> \<not> sublist ''rc'' tag \<and>
       (\<exists>token nodes. getInput E ''token'' = Inr token \<and>
          graphql_releases E token = Inr nodes \<and> tag \<in> set nodes))) \<and>
   (getLatestHelmVersionFor E type = Inr tag \<and> (type = ''v2'' \<or> type = ''v3'') \<longrightarrow>
      startsWith (toLocaleLowerCase tag) (toLocaleLowerCase type))"
proof (intro conjI impI)
  show "isValidVersion tag type \<longleftrightarrow>
        startsWith (toLocaleLowerCase tag) type \<and> \<not> sublist ''rc'' tag"
    by (rule isValidVersion_iff)
next
  assume rc: "sublist ''rc'' tag"
  show "getLatestHelmVersionFor E type \<noteq> Inr tag"
  proof
    assume "getLatestHelmVersionFor E type = Inr tag"
    from getLatestHelmVersionFor_cases [OF this] rc default_is_stable [of type]
    show False by (auto simp: isValidVersion_iff)
  qed
next
  assume "getLatestHelmVersionFor E type = Inr tag"
  from getLatestHelmVersionFor_cases [OF this]
  show "tag = getStableHelmVersionFor type \<or>
      (startsWith (toLocaleLowerCase tag) type \<and> \<not> sublist ''rc'' tag \<and>
       (\<exists>token nodes. getInput E ''token'' = Inr token \<and>
          graphql_releases E token = Inr nodes \<and> tag \<in> set nodes))"
    by (auto simp: isValidVersion_iff)
next
  assume a: "getLatestHelmVersionFor E type = Inr tag \<and> (type = ''v2'' \<or> type = ''v3'')"
  then have low: "toLocaleLowerCase type = type"
    by (auto simp: toLocaleLowerCase_def toLowerChar_def)
  from a getLatestHelmVersionFor_cases [of E type tag] default_in_family [of type]
  have "startsWith (toLocaleLowerCase tag) type"
    by (auto simp: isValidVersion_iff)
  with low show "startsWith (toLocaleLowerCase tag) (toLocaleLowerCase type)"
    by simp
qed

lemma linux_env_v3: "getLatestHelmVersionFor linux_env ''v3'' = Inr ''v3.5.0''"
  by (simp add: getLatestHelmVersionFor_def linux_env_def isValidVersion_def startsWith_def
      toLocaleLowerCase_def toLowerChar_def)

theorem family_discovery_selects_stable_tags_witness:
  "sublist ''rc'' ''v3.6.0-rc.1'' \<and>
   getLatestHelmVersionFor linux_env ''v3'' \<noteq> Inr ''v3.6.0-rc.1'' \<and>
   getLatestHelmVersionFor linux_env ''v3'' = Inr ''v3.5.0'' \<and>
   startsWith (toLocaleLowerCase ''v3.5.0'') (toLocaleLowerCase ''v3'') \<and>
   \<not> sublist ''rc'' ''v3.5.0''"
proof -
  have rc: "sublist ''rc'' ''v3.6.0-rc.1''"
    using indexOf_sublist [of "''v3.6.0-rc.1''" "''rc''"] by simp
  have "getLatestHelmVersionFor linux_env ''v3'' \<noteq> Inr ''v3.6.0-rc.1''"
    using rc family_discovery_selects_stable_tags [of "''v3.6.0-rc.1''" "''v3''" linux_env]
    by blast
  moreover have "startsWith (toLocaleLowerCase ''v3.5.0'') (toLocaleLowerCase ''v3'') \<and>
                 \<not> sublist ''rc'' ''v3.5.0''"
    using linux_env_v3 family_discovery_selects_stable_tags [of "''v3.5.0''" "''v3''" linux_env]
      default_is_stable [of "''v3''"]
    by blast
  ultimately show ?thesis
    using rc linux_env_v3 by simp
qed

text \<open>
  C10. The "rc" test is case-sensitive while the family test is not: the tag
  "v3.6.0-RC.1" contains "RC" and no "rc", starts with the family prefix "v3", and is
  accepted as a stable release (as is "V3.6.0-RC.1", whose prefix matches only
  case-insensitively), whereas "v3.6.0-rc.1" is rejected; with the listing
  ["v3.5.3", "v3.6.0-RC.1"] discovery for "v3" returns "v3.6.0-RC.1".
\<close>

theorem rc_exclusion_is_case_sensitive:
  "sublist ''RC'' ''v3.6.0-RC.1'' \<and>
   indexOf ''v3.6.0-RC.1'' ''rc'' = - 1 \<and>
   isValidVersion ''v3.6.0-RC.1'' ''v3'' \<and>
   isValidVersion ''V3.6.0-RC.1'' ''v3'' \<and>
   (isValidVersion ''v3.6.0-rc.1'' ''v3'' = False) \<and>
   getLatestHelmVersionFor uppercase_rc_env ''v3'' = Inr ''v3.6.0-RC.1''"
proof -
  have "sublist ''RC'' ''v3.6.0-RC.1''"
    using indexOf_sublist [of "''v3.6.0-RC.1''" "''RC''"] by simp
  moreover have "getLatestHelmVersionFor uppercase_rc_env ''v3'' = Inr ''v3.6.0-RC.1''"
    by (simp add: getLatestHelmVersionFor_def uppercase_rc_env_def linux_env_def
        isValidVersion_def startsWith_def toLocaleLowerCase_def toLowerChar_def)
  ultimately show ?thesis
    by (simp add: isValidVersion_def startsWith_def toLocaleLowerCase_def toLowerChar_def)
qed


text \<open>
  C2. Family-scoped discovery reverses the fetched list and returns the first entry
  of the reversed list whose lower-cased tag starts with the family prefix and that
  contains no "rc" (the family's default when there is none). In fetched order this is
  the last accepted entry: every entry after it is rejected. With the listing
  ["v3.5.3", "v3.6.0-rc.1", "v3.5.0"], the input "latest" resolves to "v3.5.0" outside
  legacy mode.
\<close>

theorem family_discovery_first_after_reversal:
  assumes "getInput E ''token'' = Inr token"
  shows "(graphql_releases E token = Inr nodes \<longrightarrow>
            getLatestHelmVersionFor E type =
              Inr (case find (\<lambda>tag. startsWith (toLocaleLowerCase tag) type \<and> \<not> sublist ''rc'' tag)
                          (rev nodes) of
                     Some tag \<Rightarrow> tag
                   | None \<Rightarrow> getStableHelmVersionFor type)) \<and>
         (graphql_releases E token = Inr (newer @ tag # older) \<and>
          isValidVersion tag type \<and> list_all (\<lambda>t. \<not> isValidVersion t type) older \<longrightarrow>
            getLatestHelmVersionFor E type = Inr tag) \<and>
         (graphql_releases E token = Inr [''v3.5.3'', ''v3.6.0-rc.1'', ''v3.5.0''] \<and> \<not> legacyMode E \<longrightarrow>
            resolveVersion E w ''latest'' = (Inr ''v3.5.0'', w))"
proof (intro conjI impI)
  assume g: "graphql_releases E token = Inr nodes"
  have "(\<lambda>release. isValidVersion release type) =
        (\<lambda>tag. startsWith (toLocaleLowerCase tag) type \<and> \<not> sublist ''rc'' tag)"
    by (simp add: isValidVersion_iff)
  then show "getLatestHelmVersionFor E type =
      Inr (case find (\<lambda>tag. startsWith (toLocaleLowerCase tag) type \<and> \<not> sublist ''rc'' tag)
                  (rev nodes) of
             Some tag \<Rightarrow> tag
           | None \<Rightarrow> getStableHelmVersionFor type)"
    using assms g by (simp add: getLatestHelmVersionFor_def split: option.splits)
next
  assume a: "graphql_releases E token = Inr (newer @ tag # older) \<and>
             isValidVersion tag type \<and> list_all (\<lambda>t. \<not> isValidVersion t type) older"
  then have "find (\<lambda>release. isValidVersion release type) (rev older) = None"
    by (simp add: find_None_iff list_all_iff)
  with a have "find (\<lambda>release. isValidVersion release type) (rev (newer @ tag # older)) = Some tag"
    by (simp add: find_append_cases)
  with a assms show "getLatestHelmVersionFor E type = Inr tag"
    by (simp add: getLatestHelmVersionFor_def)
next
  assume a: "graphql_releases E token = Inr [''v3.5.3'', ''v3.6.0-rc.1'', ''v3.5.0''] \<and> \<not> legacyMode E"
  with assms have "getLatestHelmVersionFor E ''v3'' = Inr ''v3.5.0''"
    by (simp add: getLatestHelmVersionFor_def isValidVersion_def startsWith_def
        toLocaleLowerCase_def toLowerChar_def)
  with a show "resolveVersion E w ''latest'' = (Inr ''v3.5.0'', w)"
    by (simp add: resolveVersion_def toLocaleLowerCase_def toLowerChar_def)
qed

theorem family_discovery_first_after_reversal_witness:
  "getInput linux_env ''token'' = Inr ''secret'' \<and>
   graphql_releases linux_env ''secret'' = Inr ([''v3.5.3'', ''v3.6.0-rc.1''] @ ''v3.5.0'' # []) \<and>
   isValidVersion ''v3.5.0'' ''v3'' \<and>
   \<not> legacyMode linux_env \<and>
   getLatestHelmVersionFor linux_env ''v3'' = Inr ''v3.5.0'' \<and>
   resolveVersion linux_env fresh_world ''latest'' = (Inr ''v3.5.0'', fresh_world)"
proof -
  have t: "getInput linux_env ''token'' = Inr ''secret''"
    by (simp add: linux_env_def)
  have g: "graphql_releases linux_env ''secret'' = Inr ([''v3.5.3'', ''v3.6.0-rc.1''] @ ''v3.5.0'' # [])"
    by (simp add: linux_env_def)
  have v: "isValidVersion ''v3.5.0'' ''v3''"
    by (simp add: isValidVersion_def startsWith_def toLocaleLowerCase_def toLowerChar_def)
  have l: "\<not> legacyMode linux_env"
    by (simp add: legacyMode_def linux_env_def)
  have "getLatestHelmVersionFor linux_env ''v3'' = Inr ''v3.5.0''"
    using g v
      family_discovery_first_after_reversal
        [OF t, where newer = "[''v3.5.3'', ''v3.6.0-rc.1'']" and tag = "''v3.5.0''"
           and older = "[]" and type = "''v3''"]
    by simp
  moreover have "resolveVersion linux_env fresh_world ''latest'' = (Inr ''v3.5.0'', fresh_world)"
    using g l family_discovery_first_after_reversal [OF t, where w = fresh_world]
    by simp
  ultimately show ?thesis
    using t g v l by simp
qed

subsection \<open>The resolver outside legacy mode\<close>

lemma toLowerChar_eq_v: "toLowerChar c = CHR ''v'' \<Longrightarrow> c = CHR ''v'' \<or> c = CHR ''V''"
  by (auto simp: toLowerChar_def split: option.splits if_splits)

lemma startsWith_lower_v:
  "startsWith (toLocaleLowerCase s) ''v'' = (startsWith s ''v'' \<or> startsWith s ''V'')"
proof (cases s)
  case Nil
  then show ?thesis by (simp add: startsWith_def toLocaleLowerCase_def)
next
  case (Cons c cs)
  have "toLowerChar CHR ''V'' = CHR ''v''" by (simp add: toLowerChar_def)
  with Cons toLowerChar_eq_v [of c] toLowerChar_v show ?thesis
    by (auto simp: startsWith_def toLocaleLowerCase_def)
qed

lemma family_result_starts_with_v:
  assumes "getLatestHelmVersionFor E type = Inr r" and "type = ''v2'' \<or> type = ''v3''"
  shows "startsWith (toLocaleLowerCase r) ''v''"
proof -
  from assms getLatestHelmVersionFor_cases [of E type r] default_in_family [of type]
  have "startsWith (toLocaleLowerCase r) type"
    by (auto simp: isValidVersion_iff)
  with assms(2) show ?thesis
    by (auto simp: startsWith_def prefix_def)
qed


text \<open>
  C5, as the code has it. Outside legacy mode: a token equal to "latest" when
  lower-cased, or exactly "3.*", resolves by v3-family discovery; the token "2.*"
  resolves by v2-family discovery; any other token that does not start with "v" or "V"
  gets "v" put in front; a token that starts with "v" or "V" passes through unchanged.
  Every resolved version starts with "v" when compared case-insensitively, that is with
  "v" or "V"; it need not start with a lower-case "v".
\<close>

theorem default_mode_resolution:
  assumes "\<not> legacyMode E"
  shows "(toLocaleLowerCase version = ''latest'' \<or> version = ''3.*'' \<longrightarrow>
            resolveVersion E w version = (getLatestHelmVersionFor E ''v3'', w)) \<and>
         (version = ''2.*'' \<longrightarrow>
            resolveVersion E w version = (getLatestHelmVersionFor E ''v2'', w)) \<and>
         (toLocaleLowerCase version \<noteq> ''latest'' \<and> version \<noteq> ''3.*'' \<and> version \<noteq> ''2.*'' \<and>
          \<not> startsWith (toLocaleLowerCase version) ''v'' \<longrightarrow>
            resolveVersion E w version = (Inr (''v'' @ version), w)) \<and>
         (startsWith (toLocaleLowerCase version) ''v'' \<longrightarrow>
            resolveVersion E w version = (Inr version, w)) \<and>
         (fst (resolveVersion E w version) = Inr r \<longrightarrow>
            startsWith (toLocaleLowerCase r) ''v'' \<and> (startsWith r ''v'' \<or> startsWith r ''V''))"
proof -
  have c3: "resolveVersion E w version = (getLatestHelmVersionFor E ''v3'', w)"
    if "toLocaleLowerCase version = ''latest'' \<or> version = ''3.*''"
    using that assms by (auto simp: resolveVersion_def LATEST_HELM3_VERSION_def)
  have c2: "resolveVersion E w version = (getLatestHelmVersionFor E ''v2'', w)"
    if "version = ''2.*''"
    using that assms
    by (simp add: resolveVersion_def LATEST_HELM3_VERSION_def LATEST_HELM2_VERSION_def
        toLocaleLowerCase_def toLowerChar_def)
  have cp: "resolveVersion E w version = (Inr (''v'' @ version), w)"
    if "toLocaleLowerCase version \<noteq> ''latest'' \<and> version \<noteq> ''3.*'' \<and> version \<noteq> ''2.*'' \<and>
        \<not> startsWith (toLocaleLowerCase version) ''v''"
    using that assms
    by (simp add: resolveVersion_def LATEST_HELM3_VERSION_def LATEST_HELM2_VERSION_def)
  have cv: "resolveVersion E w version = (Inr version, w)"
    if v: "startsWith (toLocaleLowerCase version) ''v''"
  proof -
    have "\<not> startsWith ''latest'' ''v''"
      by (simp add: startsWith_def)
    with v have n: "toLocaleLowerCase version \<noteq> ''latest''"
      by auto
    have "\<not> startsWith (toLocaleLowerCase ''3.*'') ''v'' \<and>
          \<not> startsWith (toLocaleLowerCase ''2.*'') ''v''"
      by (simp add: startsWith_def toLocaleLowerCase_def toLowerChar_def)
    with v have "version \<noteq> ''3.*'' \<and> version \<noteq> ''2.*''"
      by blast
    with assms v n show ?thesis
      by (simp add: resolveVersion_def LATEST_HELM3_VERSION_def LATEST_HELM2_VERSION_def)
  qed
  have cr: "startsWith (toLocaleLowerCase r) ''v''"
    if r: "fst (resolveVersion E w version) = Inr r"
  proof (cases "toLocaleLowerCase version = ''latest'' \<or> version = ''3.*''")
    case True
    with r c3 have "getLatestHelmVersionFor E ''v3'' = Inr r"
      by simp
    then show ?thesis by (rule family_result_starts_with_v) simp
  next
    case n3: False
    show ?thesis
    proof (cases "version = ''2.*''")
      case True
      with r c2 have "getLatestHelmVersionFor E ''v2'' = Inr r"
        by simp
      then show ?thesis by (rule family_result_starts_with_v) simp
    next
      case n2: False
      show ?thesis
      proof (cases "startsWith (toLocaleLowerCase version) ''v''")
        case True
        with r cv show ?thesis by simp
      next
        case False
        with n3 n2 cp have "resolveVersion E w version = (Inr (''v'' @ version), w)"
          by blast
        with r have "r = ''v'' @ version" by simp
        then show ?thesis
          by (simp add: startsWith_def toLocaleLowerCase_Cons toLowerChar_v)
      qed
    qed
  qed
  have cr': "startsWith r ''v'' \<or> startsWith r ''V''"
    if "fst (resolveVersion E w version) = Inr r"
    using cr [OF that] by (simp add: startsWith_lower_v)
  from c3 c2 cp cv cr cr' show ?thesis
    by blast
qed

theorem default_mode_resolution_witness:
  "\<not> legacyMode linux_env \<and>
   resolveVersion linux_env fresh_world ''LATEST'' = (Inr ''v3.5.0'', fresh_world) \<and>
   resolveVersion linux_env fresh_world ''2.*'' = (Inr ''v2.17.0'', fresh_world) \<and>
   resolveVersion linux_env fresh_world ''2.17.0'' = (Inr ''v2.17.0'', fresh_world) \<and>
   resolveVersion linux_env fresh_world ''V3.5.0'' = (Inr ''V3.5.0'', fresh_world) \<and>
   startsWith (toLocaleLowerCase ''V3.5.0'') ''v''"
proof -
  have l: "\<not> legacyMode linux_env"
    by (simp add: legacyMode_def linux_env_def)
  have v2: "getLatestHelmVersionFor linux_env ''v2'' = Inr ''v2.17.0''"
    by (simp add: getLatestHelmVersionFor_def linux_env_def isValidVersion_def startsWith_def
        toLocaleLowerCase_def toLowerChar_def getStableHelmVersionFor_def stableHelm2Version_def)
  have a: "toLocaleLowerCase ''LATEST'' = ''latest''"
    by (simp add: toLocaleLowerCase_def toLowerChar_def)
  have b: "toLocaleLowerCase ''2.17.0'' \<noteq> ''latest'' \<and> ''2.17.0'' \<noteq> ''3.*'' \<and> ''2.17.0'' \<noteq> ''2.*'' \<and>
           \<not> startsWith (toLocaleLowerCase ''2.17.0'') ''v''"
    by (simp add: startsWith_def toLocaleLowerCase_def toLowerChar_def)
  have c: "startsWith (toLocaleLowerCase ''V3.5.0'') ''v''"
    by (simp add: startsWith_def toLocaleLowerCase_def toLowerChar_def)
  have r1: "resolveVersion linux_env fresh_world ''LATEST'' = (Inr ''v3.5.0'', fresh_world)"
    using a linux_env_v3
      default_mode_resolution [OF l, where version = "''LATEST''" and w = fresh_world]
    by presburger
  have r2: "resolveVersion linux_env fresh_world ''2.*'' = (Inr ''v2.17.0'', fresh_world)"
    using v2 default_mode_resolution [OF l, where version = "''2.*''" and w = fresh_world]
    by presburger
  have r3: "resolveVersion linux_env fresh_world ''2.17.0'' = (Inr ''v2.17.0'', fresh_world)"
    using b default_mode_resolution [OF l, where version = "''2.17.0''" and w = fresh_world]
    by (metis append_Cons append_Nil)
  have r4: "resolveVersion linux_env fresh_world ''V3.5.0'' = (Inr ''V3.5.0'', fresh_world)"
    using c default_mode_resolution [OF l, where version = "''V3.5.0''" and w = fresh_world]
    by blast
  from l r1 r2 r3 r4 c show ?thesis
    by blast
qed

text \<open>The token "V3.5.0" resolves to itself outside legacy mode, and "V3.5.0" does not
  start with "v".\<close>

theorem uppercase_token_counterexample:
  "\<not> legacyMode linux_env \<and>
   fst (resolveVersion linux_env fresh_world ''V3.5.0'') = Inr ''V3.5.0'' \<and>
   \<not> startsWith ''V3.5.0'' ''v''"
  by (simp add: legacyMode_def linux_env_def resolveVersion_def startsWith_def
      toLocaleLowerCase_def toLowerChar_def LATEST_HELM3_VERSION_def LATEST_HELM2_VERSION_def)


subsection \<open>Failures during discovery\<close>

lemma getStableHelmVersion_fetch_failed:
  "remote E helmAllReleasesUrl = Inl e \<Longrightarrow> fst (getStableHelmVersion E w) = stableHelmVersion"
  by (simp add: getStableHelmVersion_def downloadTool_def Let_def)

lemma getStableHelmVersion_parse_failed:
  assumes "remote E helmAllReleasesUrl = Inr c" and "c = OtherContent \<or> (\<exists>t. c = ZipArchive t)"
  shows "fst (getStableHelmVersion E w) = stableHelmVersion"
  using assms by (auto simp: getStableHelmVersion_def downloadTool_def Let_def readReleases_def)

lemma getLatestHelmVersionFor_query_failed:
  "getInput E ''token'' = Inr token \<Longrightarrow> graphql_releases E token = Inl err \<Longrightarrow>
   getLatestHelmVersionFor E type = Inr (getStableHelmVersionFor type)"
  by (simp add: getLatestHelmVersionFor_def)

lemma getLatestHelmVersionFor_error:
  "getLatestHelmVersionFor E type = Inl e \<Longrightarrow> getInput E ''token'' = Inl e"
  by (auto simp: getLatestHelmVersionFor_def Let_def split: sum.splits option.splits)

lemma resolveVersion_error:
  assumes "fst (resolveVersion E w version) = Inl e"
  shows "\<not> legacyMode E \<and> getInput E ''token'' = Inl e \<and>
         (toLocaleLowerCase version = ''latest'' \<or> version = ''3.*'' \<or> version = ''2.*'')"
proof -
  from assms have l: "\<not> legacyMode E"
    by (auto simp: resolveVersion_def split: if_splits prod.splits)
  from assms l have "getLatestHelmVersionFor E ''v3'' = Inl e \<or> getLatestHelmVersionFor E ''v2'' = Inl e"
    by (auto simp: resolveVersion_def split: if_splits)
  then have t: "getInput E ''token'' = Inl e"
    by (auto dest: getLatestHelmVersionFor_error)
  from assms l have "toLocaleLowerCase version = ''latest'' \<or> version = ''3.*'' \<or> version = ''2.*''"
    by (auto simp: resolveVersion_def LATEST_HELM3_VERSION_def LATEST_HELM2_VERSION_def
        split: if_splits)
  with l t show ?thesis by simp
qed

text \<open>
  C1, as the code has it. The resolver raises to its caller in one case only: outside
  legacy mode, for a token that needs family-scoped discovery ("latest", "3.*", "2.*"),
  when the required \<^verbatim>\<open>token\<close> input is not supplied; the error is the one
  \<^verbatim>\<open>core.getInput\<close> throws, before any query is made. In legacy mode, or with the
  \<^verbatim>\<open>token\<close> input supplied, resolution returns a version for every token. A failure of
  discovery itself never reaches the caller: a rejected release query gives the family's
  default ("v2.17.0" for "v2", "v3.5.3" otherwise), and a listing that cannot be fetched
  or is not a JSON array gives the global default "v3.2.1".
\<close>

theorem discovery_failures_are_recovered:
  "(legacyMode E \<or> getInput E ''token'' = Inr token \<longrightarrow>
      (\<exists>v. fst (resolveVersion E w version) = Inr v)) \<and>
   (fst (resolveVersion E w version) = Inl e \<longrightarrow>
      \<not> legacyMode E \<and> getInput E ''token'' = Inl e \<and>
      (toLocaleLowerCase version = ''latest'' \<or> version = ''3.*'' \<or> version = ''2.*'')) \<and>
   (getInput E ''token'' = Inr token \<and> graphql_releases E token = Inl err \<longrightarrow>
      getLatestHelmVersionFor E type = Inr (getStableHelmVersionFor type)) \<and>
   (remote E helmAllReleasesUrl = Inl err \<longrightarrow>
      fst (getStableHelmVersion E w) = stableHelmVersion) \<and>
   (remote E helmAllReleasesUrl = Inr c \<and> (c = OtherContent \<or> (\<exists>t. c = ZipArchive t)) \<longrightarrow>
      fst (getStableHelmVersion E w) = stableHelmVersion) \<and>
   (legacyMode E \<and> toLocaleLowerCase version = ''latest'' \<and> remote E helmAllReleasesUrl = Inl err \<longrightarrow>
      fst (resolveVersion E w version) = Inr ''v3.2.1'') \<and>
   (\<not> legacyMode E \<and> getInput E ''token'' = Inr token \<and> graphql_releases E token = Inl err \<longrightarrow>
      fst (resolveVersion E w ''latest'') = Inr ''v3.5.3'' \<and>
      fst (resolveVersion E w ''3.*'') = Inr ''v3.5.3'' \<and>
      fst (resolveVersion E w ''2.*'') = Inr ''v2.17.0'')"
proof -
  have total: "\<exists>v. fst (resolveVersion E w version) = Inr v"
    if "legacyMode E \<or> getInput E ''token'' = Inr token"
  proof (cases "fst (resolveVersion E w version)")
    case (Inl e)
    from resolveVersion_error [OF this] that show ?thesis by auto
  next
    case (Inr v)
    then show ?thesis by blast
  qed
  have legacy: "fst (resolveVersion E w version) = Inr ''v3.2.1''"
    if "legacyMode E \<and> toLocaleLowerCase version = ''latest'' \<and> remote E helmAllReleasesUrl = Inl err"
    using that getStableHelmVersion_fetch_failed [of E err w]
    by (auto simp: resolveVersion_def stableHelmVersion_def split: prod.splits)
  have family: "fst (resolveVersion E w ''latest'') = Inr ''v3.5.3'' \<and>
                fst (resolveVersion E w ''3.*'') = Inr ''v3.5.3'' \<and>
                fst (resolveVersion E w ''2.*'') = Inr ''v2.17.0''"
    if "\<not> legacyMode E \<and> getInput E ''token'' = Inr token \<and> graphql_releases E token = Inl err"
    using that
    by (simp add: resolveVersion_def getLatestHelmVersionFor_def getStableHelmVersionFor_def
        stableHelm2Version_def stableHelm3Version_def LATEST_HELM3_VERSION_def
        LATEST_HELM2_VERSION_def toLocaleLowerCase_def toLowerChar_def)
  from total legacy family resolveVersion_error [of E w version e]
    getLatestHelmVersionFor_query_failed [of E token err type]
    getStableHelmVersion_fetch_failed [of E err w]
    getStableHelmVersion_parse_failed [of E c w]
  show ?thesis by blast
qed

theorem discovery_failures_are_recovered_witness:
  "legacyMode offline_legacy_env \<and>
   remote offline_legacy_env helmAllReleasesUrl = Inl (Error ''getaddrinfo ENOTFOUND'') \<and>
   fst (resolveVersion offline_legacy_env fresh_world ''latest'') = Inr ''v3.2.1'' \<and>
   \<not> legacyMode unauthorized_env \<and>
   getInput unauthorized_env ''token'' = Inr ''secret'' \<and>
   graphql_releases unauthorized_env ''secret'' = Inl (Error ''Bad credentials'') \<and>
   fst (resolveVersion unauthorized_env fresh_world ''latest'') = Inr ''v3.5.3'' \<and>
   fst (resolveVersion unauthorized_env fresh_world ''2.*'') = Inr ''v2.17.0''"
proof -
  have a: "legacyMode offline_legacy_env \<and> toLocaleLowerCase ''latest'' = ''latest'' \<and>
           remote offline_legacy_env helmAllReleasesUrl = Inl (Error ''getaddrinfo ENOTFOUND'')"
    by (simp add: offline_legacy_env_def legacy_env_def linux_env_def legacyMode_def
        toLocaleLowerCase_def toLowerChar_def)
  have b: "\<not> legacyMode unauthorized_env \<and> getInput unauthorized_env ''token'' = Inr ''secret'' \<and>
           graphql_releases unauthorized_env ''secret'' = Inl (Error ''Bad credentials'')"
    by (simp add: unauthorized_env_def linux_env_def legacyMode_def)
  have r1: "fst (resolveVersion offline_legacy_env fresh_world ''latest'') = Inr ''v3.2.1''"
    using a discovery_failures_are_recovered
      [where E = offline_legacy_env and version = "''latest''" and w = fresh_world
         and err = "Error ''getaddrinfo ENOTFOUND''"]
    by blast
  have r2: "fst (resolveVersion unauthorized_env fresh_world ''latest'') = Inr ''v3.5.3'' \<and>
            fst (resolveVersion unauthorized_env fresh_world ''2.*'') = Inr ''v2.17.0''"
    using b discovery_failures_are_recovered
      [where E = unauthorized_env and token = "''secret''" and w = fresh_world
         and err = "Error ''Bad credentials''"]
    by blast
  from a b r1 r2 show ?thesis by blast
qed

text \<open>With no \<^verbatim>\<open>token\<close> input, resolving "latest" outside legacy mode raises
  "Input required and not supplied: token", and so does \<open>run\<close>.\<close>

theorem missing_token_counterexample:
  "\<not> legacyMode tokenless_env \<and>
   fst (resolveVersion tokenless_env fresh_world ''latest'') =
     Inl (Error ''Input required and not supplied: token'') \<and>
   fst (run tokenless_env fresh_world) = Inl (Error ''Input required and not supplied: token'')"
  by (simp add: legacyMode_def tokenless_env_def linux_env_def resolveVersion_def run_def
      getLatestHelmVersionFor_def input_missing_def toLocaleLowerCase_def toLowerChar_def)


subsection \<open>Global discovery\<close>

lemma forEach_response_running_maximum:
  assumes "transp (semver_gt E)"
  shows "\<exists>x. forEach_response E rs (Some l) = Inr (Some x) \<and> (x = l \<or> semver_gt E x l)"
proof (induction rs arbitrary: l)
  case Nil
  then show ?case by simp
next
  case (Cons response rest)
  from Cons [of l] obtain x where
    keep: "forEach_response E rest (Some l) = Inr (Some x)" "x = l \<or> semver_gt E x l"
    by blast
  show ?case
  proof (cases "\<exists>t c. response = Some t \<and> t \<noteq> [] \<and> semver_clean E t = Some c \<and> c \<noteq> [] \<and>
                      indexOf c ''rc'' = - 1 \<and> semver_gt E c l")
    case True
    then obtain t c where
      tc: "response = Some t" "t \<noteq> []" "semver_clean E t = Some c" "c \<noteq> []"
          "indexOf c ''rc'' = - 1" "semver_gt E c l"
      by blast
    from Cons [of c] obtain y where
      y: "forEach_response E rest (Some c) = Inr (Some y)" "y = c \<or> semver_gt E y c"
      by blast
    from y(2) tc(6) assms have "semver_gt E y l"
      by (auto dest: transpD)
    with tc y(1) show ?thesis by simp
  next
    case False
    then have "forEach_response E (response # rest) (Some l) = forEach_response E rest (Some l)"
      by (auto split: option.splits)
    with keep show ?thesis by simp
  qed
qed

lemma forEach_response_skips:
  "list_all (\<lambda>r. case r of None \<Rightarrow> True | Some t \<Rightarrow> semver_clean E t = None) rs \<Longrightarrow>
   forEach_response E rs latest = Inr latest"
  by (induction rs) (auto split: option.splits)

lemma getStableHelmVersion_listing:
  assumes "remote E helmAllReleasesUrl = Inr (JsonReleases rs)"
  shows "fst (getStableHelmVersion E w) =
           (case forEach_response E rs (semver_clean E stableHelmVersion) of
              Inl e \<Rightarrow> stableHelmVersion
            | Inr latestHelmVersion \<Rightarrow> v_plus latestHelmVersion)"
  using assms
  by (simp add: getStableHelmVersion_def downloadTool_def Let_def readReleases_def emit_def
      split: sum.splits)

lemma getStableHelmVersion_starts_with_v: "startsWith (fst (getStableHelmVersion E w)) ''v''"
  by (auto simp: getStableHelmVersion_def startsWith_def stableHelmVersion_def v_plus_def
      split: prod.splits sum.splits)

lemma sample_gt_transp: "transp sample_gt"
  by (rule transpI) (auto simp: sample_gt_def split: option.splits)

text \<open>
  C4. Global discovery returns a string that starts with "v", for every environment.
  When \<^verbatim>\<open>semver.clean\<close> maps the hardcoded default "v3.2.1" to the seed "3.2.1" and
  \<^verbatim>\<open>semver.gt\<close> is transitive, the returned string is "v" followed by a version that
  is the seed or greater than the seed, whatever the listing URL serves: a listing, an
  unparseable body or a failed transfer. A listing that is empty, or whose entries all
  lack a tag name or a parseable one, gives "v3.2.1".
\<close>

theorem global_discovery_not_below_seed:
  assumes "semver_clean E stableHelmVersion = Some ''3.2.1''" and "transp (semver_gt E)"
  shows "startsWith (fst (getStableHelmVersion E w)) ''v'' \<and>
         (\<exists>x. fst (getStableHelmVersion E w) = ''v'' @ x \<and> (x = ''3.2.1'' \<or> semver_gt E x ''3.2.1'')) \<and>
         (remote E helmAllReleasesUrl = Inr (JsonReleases rs) \<and>
          list_all (\<lambda>r. case r of None \<Rightarrow> True | Some t \<Rightarrow> semver_clean E t = None) rs \<longrightarrow>
            fst (getStableHelmVersion E w) = ''v3.2.1'')"
proof -
  have ge: "\<exists>x. fst (getStableHelmVersion E w) = ''v'' @ x \<and> (x = ''3.2.1'' \<or> semver_gt E x ''3.2.1'')"
  proof (cases "\<exists>rs. remote E helmAllReleasesUrl = Inr (JsonReleases rs)")
    case True
    then obtain rs' where rs': "remote E helmAllReleasesUrl = Inr (JsonReleases rs')"
      by blast
    from forEach_response_running_maximum [OF assms(2), of rs' "''3.2.1''"] obtain x where
      x: "forEach_response E rs' (Some ''3.2.1'') = Inr (Some x)" "x = ''3.2.1'' \<or> semver_gt E x ''3.2.1''"
      by blast
    from x(1) assms(1) have "fst (getStableHelmVersion E w) = ''v'' @ x"
      by (simp add: getStableHelmVersion_listing [OF rs'] v_plus_def)
    with x(2) show ?thesis by blast
  next
    case False
    have "fst (getStableHelmVersion E w) = stableHelmVersion"
    proof (cases "remote E helmAllReleasesUrl")
      case (Inl e)
      then show ?thesis by (rule getStableHelmVersion_fetch_failed)
    next
      case (Inr c)
      with False have "c = OtherContent \<or> (\<exists>t. c = ZipArchive t)"
        by (cases c) auto
      with Inr show ?thesis by (rule getStableHelmVersion_parse_failed)
    qed
    then have "fst (getStableHelmVersion E w) = ''v'' @ ''3.2.1''"
      by (simp add: stableHelmVersion_def)
    then show ?thesis by blast
  qed
  have malformed: "fst (getStableHelmVersion E w) = ''v3.2.1''"
    if "remote E helmAllReleasesUrl = Inr (JsonReleases rs) \<and>
        list_all (\<lambda>r. case r of None \<Rightarrow> True | Some t \<Rightarrow> semver_clean E t = None) rs"
    using that assms(1) forEach_response_skips [of E rs "Some ''3.2.1''"]
    by (simp add: getStableHelmVersion_listing v_plus_def)
  from ge malformed getStableHelmVersion_starts_with_v [of E w] show ?thesis
    by blast
qed

theorem global_discovery_not_below_seed_witness:
  "semver_clean linux_env stableHelmVersion = Some ''3.2.1'' \<and>
   transp (semver_gt linux_env) \<and>
   fst (getStableHelmVersion linux_env fresh_world) = ''v3.5.3'' \<and>
   semver_gt linux_env ''3.5.3'' ''3.2.1'' \<and>
   (\<exists>x. fst (getStableHelmVersion linux_env fresh_world) = ''v'' @ x \<and>
        (x = ''3.2.1'' \<or> semver_gt linux_env x ''3.2.1''))"
proof -
  have c: "semver_clean linux_env stableHelmVersion = Some ''3.2.1''"
    by (simp add: linux_env_def stableHelmVersion_def sample_clean_def sample_versions_def)
  have t: "transp (semver_gt linux_env)"
    using sample_gt_transp by (simp add: linux_env_def)
  have r: "remote linux_env helmAllReleasesUrl =
             Inr (JsonReleases [Some ''v3.5.3'', None, Some ''v3.6.0-rc.1'', Some ''v3.2.1''])"
    by (simp add: linux_env_def)
  have v: "fst (getStableHelmVersion linux_env fresh_world) = ''v3.5.3''"
    unfolding getStableHelmVersion_listing [OF r]
    by (simp add: linux_env_def stableHelmVersion_def sample_clean_def sample_gt_def
        sample_versions_def v_plus_def)
  have g: "semver_gt linux_env ''3.5.3'' ''3.2.1''"
    by (simp add: linux_env_def sample_gt_def sample_versions_def)
  from c t v g global_discovery_not_below_seed [OF c t, of fresh_world] show ?thesis
    by blast
qed


subsection \<open>The tool cache\<close>

lemma files_emit [simp]: "files (emit e w) = files w"
  by (simp add: emit_def)

lemma tool_dirs_emit [simp]: "tool_dirs (emit e w) = tool_dirs w"
  by (simp add: emit_def)

lemma trace_emit [simp]: "trace (emit e w) = trace w @ [e]"
  by (simp add: emit_def)

lemma files_chmodSync [simp]: "files (chmodSync w p) = files w"
  by (simp add: chmodSync_def)

lemma tool_dirs_chmodSync [simp]: "tool_dirs (chmodSync w p) = tool_dirs w"
  by (simp add: chmodSync_def)

lemma trace_chmodSync [simp]: "trace (chmodSync w p) = trace w @ [Chmod p]"
  by (simp add: chmodSync_def)

lemma is_cached_dir_iff: "is_cached_dir w p = (\<exists>entries. files w p = Some (Folder entries))"
  by (auto simp: is_cached_dir_def split: option.splits fsobject.splits)

lemma helmToolName_nonempty: "helmToolName \<noteq> []"
  by (simp add: helmToolName_def)

lemma snd_toolCache_find:
  "snd (toolCache_find E w tool version) = emit (CacheLookup tool version) w"
  by (simp add: toolCache_find_def Let_def)

lemma toolCache_find_returns:
  "tool \<noteq> [] \<Longrightarrow> version \<noteq> [] \<Longrightarrow> \<exists>root. fst (toolCache_find E w tool version) = Inr root"
  by (simp add: toolCache_find_def Let_def)

lemma toolCache_find_found:
  assumes "fst (toolCache_find E w tool version) = Inr root" and "root \<noteq> []"
  shows "\<exists>entries. files w root = Some (Folder entries)"
  using assms by (auto simp: toolCache_find_def Let_def is_cached_dir_iff split: if_splits)

text \<open>A key that cleans to a valid version is looked up in that version's folder.\<close>

lemma toolCache_find_explicit:
  assumes "tool \<noteq> []" and "version \<noteq> []"
    and "semver_clean E version = Some c" and "semver_valid E c"
  shows "fst (toolCache_find E w tool version) =
           Inr (if is_cached_dir w (cache_dest E tool c) then cache_dest E tool c else [])"
  using assms
  by (simp add: toolCache_find_def Let_def isExplicitVersion_def clean_or_empty_def)



text \<open>A range as key: with version 3.5.0 cached, the key "v3.*" finds its directory.\<close>

lemma range_key_finds_cached_version:
  "fst (toolCache_find linux_env warm_world helmToolName ''v3.*'') =
     Inr ''/opt/hostedtoolcache/helm/3.5.0''"
  by (simp add: toolCache_find_def Let_def isExplicitVersion_def clean_or_empty_def
      findAllVersions_def evaluateVersions_def sort_versions_def is_cached_dir_def
      linux_env_def warm_world_def helmToolName_def sample_clean_def sample_valid_def
      sample_satisfies_def sample_versions_def sample_ranges_def startsWith_def)

subsection \<open>Acquisition\<close>

lemma findHelm_Folder:
  "files w rootFolder = Some (Folder entries) \<Longrightarrow>
   findHelm E w rootFolder =
     (case walkSync E rootFolder entries [] (helmToolName @ getExecutableExtension E) of
        [] \<Rightarrow> (Inl (Error (''Helm executable not found in path '' @ rootFolder)), chmodSync w rootFolder)
      | f # fs \<Rightarrow> (Inr f, chmodSync w rootFolder))"
  by (simp add: findHelm_def Let_def)

text \<open>A cache hit: no transfer, and the result is read off the cached directory.\<close>

lemma downloadHelm_hit:
  assumes "version \<noteq> []" and "fst (toolCache_find E w helmToolName version) = Inr root"
    and "root \<noteq> []" and "files w root = Some (Folder entries)"
  shows "fst (downloadHelm E w version) = located E root entries"
    and "files (snd (downloadHelm E w version)) = files w"
    and "tool_dirs (snd (downloadHelm E w version)) = tool_dirs w"
    and "\<exists>evs. trace (snd (downloadHelm E w version)) =
                 trace w @ CacheLookup helmToolName version # evs \<and>
               list_all (\<lambda>ev. cache_key_of ev = None \<and> download_url_of ev = None \<and> \<not> is_transfer ev) evs"
proof -
  let ?w2 = "emit (CacheLookup helmToolName version) w"
  have found: "toolCache_find E w helmToolName version = (Inr root, ?w2)"
    using assms(2) snd_toolCache_find [of E w helmToolName version] by (simp add: prod_eq_iff)
  have f2: "files ?w2 root = Some (Folder entries)"
    using assms(4) by simp
  have d: "downloadHelm E w version =
           (case findHelm E ?w2 root of
              (Inl e, w4) \<Rightarrow> (Inl e, w4)
            | (Inr helmpath, w4) \<Rightarrow>
                if helmpath = []
                then (Inl (Error (''Helm executable not found in path '' @ root)), w4)
                else (Inr helmpath, chmodSync w4 helmpath))"
    using assms(1,3) by (simp add: downloadHelm_def found)
  show "fst (downloadHelm E w version) = located E root entries"
    unfolding d findHelm_Folder [OF f2] located_def
    by (simp split: list.splits)
  show "files (snd (downloadHelm E w version)) = files w"
    unfolding d findHelm_Folder [OF f2]
    by (simp split: list.splits)
  show "tool_dirs (snd (downloadHelm E w version)) = tool_dirs w"
    unfolding d findHelm_Folder [OF f2]
    by (simp split: list.splits)
  show "\<exists>evs. trace (snd (downloadHelm E w version)) =
                 trace w @ CacheLookup helmToolName version # evs \<and>
               list_all (\<lambda>ev. cache_key_of ev = None \<and> download_url_of ev = None \<and> \<not> is_transfer ev) evs"
    unfolding d findHelm_Folder [OF f2]
    by (simp split: list.splits)
qed

text \<open>The three outcomes of the cache-miss branch: the transfer fails; the download is
  not a zip archive; the archive is downloaded, unpacked and registered.\<close>

lemma fetchAndCache_download_failed:
  assumes "remote E (getHelmDownloadURL E version) = Inl ex"
  shows "fetchAndCache E w version =
           (Inl (Error (''Failed to download Helm from location '' @ getHelmDownloadURL E version)),
            emit (Download (getHelmDownloadURL E version)) w)"
  using assms by (simp add: fetchAndCache_def downloadTool_def Let_def)

lemma fetchAndCache_not_zip:
  assumes "remote E (getHelmDownloadURL E version) = Inr c" and "\<forall>t. c \<noteq> ZipArchive t"
  shows "fst (fetchAndCache E w version) = Inl (Error ''cannot extract'')"
    and "files (snd (fetchAndCache E w version)) =
           (files w)(download_dest E (getHelmDownloadURL E version) \<mapsto> Downloaded c)"
    and "tool_dirs (snd (fetchAndCache E w version)) = tool_dirs w"
    and "trace (snd (fetchAndCache E w version)) =
           trace w @ [Download (getHelmDownloadURL E version),
                      Chmod (download_dest E (getHelmDownloadURL E version)),
                      ExtractZip (download_dest E (getHelmDownloadURL E version))]"
  using assms
  by (cases c; simp add: fetchAndCache_def downloadTool_def extractZip_def Let_def)+

lemma fetchAndCache_zip:
  assumes "remote E (getHelmDownloadURL E version) = Inr (ZipArchive t)"
  shows "fst (fetchAndCache E w version) = Inr (cache_dest E helmToolName (cache_folder E version))"
    and "files (snd (fetchAndCache E w version)) (cache_dest E helmToolName (cache_folder E version)) =
           Some (Folder t)"
    and "tool_dirs (snd (fetchAndCache E w version)) helmToolName =
           (if cache_folder E version \<in> set (tool_dirs w helmToolName) then tool_dirs w helmToolName
            else tool_dirs w helmToolName @ [cache_folder E version])"
    and "trace (snd (fetchAndCache E w version)) =
           trace w @ [Download (getHelmDownloadURL E version),
                      Chmod (download_dest E (getHelmDownloadURL E version)),
                      ExtractZip (download_dest E (getHelmDownloadURL E version)),
                      CacheDir (extract_dest E (download_dest E (getHelmDownloadURL E version)))
                        helmToolName version]"
  using assms
  by (simp_all add: fetchAndCache_def downloadTool_def extractZip_def cacheDir_def Let_def)

lemma downloadHelm_miss:
  assumes "version \<noteq> []" and "fst (toolCache_find E w helmToolName version) = Inr []"
  shows "downloadHelm E w version =
           (case fetchAndCache E (emit (CacheLookup helmToolName version) w) version of
              (Inl e, w3) \<Rightarrow> (Inl e, w3)
            | (Inr cachedToolpath, w3) \<Rightarrow>
                (case findHelm E w3 cachedToolpath of
                   (Inl e, w4) \<Rightarrow> (Inl e, w4)
                 | (Inr helmpath, w4) \<Rightarrow>
                     if helmpath = []
                     then (Inl (Error (''Helm executable not found in path '' @ cachedToolpath)), w4)
                     else (Inr helmpath, chmodSync w4 helmpath)))"
proof -
  have "toolCache_find E w helmToolName version = (Inr [], emit (CacheLookup helmToolName version) w)"
    using assms(2) snd_toolCache_find [of E w helmToolName version] by (simp add: prod_eq_iff)
  with assms(1) show ?thesis
    by (simp add: downloadHelm_def)
qed


lemma downloadHelm_miss_zip:
  assumes "version \<noteq> []" and "fst (toolCache_find E w helmToolName version) = Inr []"
    and "remote E (getHelmDownloadURL E version) = Inr (ZipArchive t)"
  shows "fst (downloadHelm E w version) =
           located E (cache_dest E helmToolName (cache_folder E version)) t"
    and "files (snd (downloadHelm E w version)) (cache_dest E helmToolName (cache_folder E version)) =
           Some (Folder t)"
    and "tool_dirs (snd (downloadHelm E w version)) helmToolName =
           (if cache_folder E version \<in> set (tool_dirs w helmToolName) then tool_dirs w helmToolName
            else tool_dirs w helmToolName @ [cache_folder E version])"
    and "\<exists>evs. trace (snd (downloadHelm E w version)) =
                 trace w @ [CacheLookup helmToolName version,
                            Download (getHelmDownloadURL E version),
                            Chmod (download_dest E (getHelmDownloadURL E version)),
                            ExtractZip (download_dest E (getHelmDownloadURL E version)),
                            CacheDir (extract_dest E (download_dest E (getHelmDownloadURL E version)))
                              helmToolName version] @ evs \<and>
               list_all (\<lambda>ev. cache_key_of ev = None \<and> download_url_of ev = None \<and> \<not> is_transfer ev) evs"
proof -
  let ?w2 = "emit (CacheLookup helmToolName version) w"
  let ?root = "cache_dest E helmToolName (cache_folder E version)"
  obtain r w3 where f: "fetchAndCache E ?w2 version = (r, w3)"
    by (cases "fetchAndCache E ?w2 version")
  from fetchAndCache_zip [OF assms(3), of ?w2] f have
    r: "r = Inr ?root" and files3: "files w3 ?root = Some (Folder t)" and
    dirs3: "tool_dirs w3 helmToolName =
           (if cache_folder E version \<in> set (tool_dirs w helmToolName) then tool_dirs w helmToolName
            else tool_dirs w helmToolName @ [cache_folder E version])" and
    trace3: "trace w3 = trace ?w2 @ [Download (getHelmDownloadURL E version),
                      Chmod (download_dest E (getHelmDownloadURL E version)),
                      ExtractZip (download_dest E (getHelmDownloadURL E version)),
                      CacheDir (extract_dest E (download_dest E (getHelmDownloadURL E version)))
                        helmToolName version]"
    by simp_all
  have d: "downloadHelm E w version =
             (case findHelm E w3 ?root of
                (Inl e, w4) \<Rightarrow> (Inl e, w4)
              | (Inr helmpath, w4) \<Rightarrow>
                  if helmpath = []
                  then (Inl (Error (''Helm executable not found in path '' @ ?root)), w4)
                  else (Inr helmpath, chmodSync w4 helmpath))"
    by (simp add: downloadHelm_miss [OF assms(1,2)] f r)
  show "fst (downloadHelm E w version) = located E ?root t"
    unfolding d findHelm_Folder [OF files3] located_def
    by (simp split: list.splits)
  show "files (snd (downloadHelm E w version)) ?root = Some (Folder t)"
    unfolding d findHelm_Folder [OF files3]
    using files3 by (simp split: list.splits)
  show "tool_dirs (snd (downloadHelm E w version)) helmToolName =
           (if cache_folder E version \<in> set (tool_dirs w helmToolName) then tool_dirs w helmToolName
            else tool_dirs w helmToolName @ [cache_folder E version])"
    unfolding d findHelm_Folder [OF files3]
    using dirs3 by (simp split: list.splits)
  show "\<exists>evs. trace (snd (downloadHelm E w version)) =
                 trace w @ [CacheLookup helmToolName version,
                            Download (getHelmDownloadURL E version),
                            Chmod (download_dest E (getHelmDownloadURL E version)),
                            ExtractZip (download_dest E (getHelmDownloadURL E version)),
                            CacheDir (extract_dest E (download_dest E (getHelmDownloadURL E version)))
                              helmToolName version] @ evs \<and>
               list_all (\<lambda>ev. cache_key_of ev = None \<and> download_url_of ev = None \<and> \<not> is_transfer ev) evs"
    unfolding d findHelm_Folder [OF files3]
    by (simp add: trace3 split: list.splits)
qed

lemma downloadHelm_miss_not_zip:
  assumes "version \<noteq> []" and "fst (toolCache_find E w helmToolName version) = Inr []"
    and "remote E (getHelmDownloadURL E version) = Inr c" and "\<forall>t. c \<noteq> ZipArchive t"
  shows "fst (downloadHelm E w version) = Inl (Error ''cannot extract'')"
    and "files (snd (downloadHelm E w version)) =
           (files w)(download_dest E (getHelmDownloadURL E version) \<mapsto> Downloaded c)"
    and "tool_dirs (snd (downloadHelm E w version)) = tool_dirs w"
    and "trace (snd (downloadHelm E w version)) =
           trace w @ [CacheLookup helmToolName version,
                      Download (getHelmDownloadURL E version),
                      Chmod (download_dest E (getHelmDownloadURL E version)),
                      ExtractZip (download_dest E (getHelmDownloadURL E version))]"
proof -
  let ?w2 = "emit (CacheLookup helmToolName version) w"
  obtain r w3 where f: "fetchAndCache E ?w2 version = (r, w3)"
    by (cases "fetchAndCache E ?w2 version")
  from fetchAndCache_not_zip [OF assms(3,4), of ?w2] f have
    r: "r = Inl (Error ''cannot extract'')" and
    files3: "files w3 = (files w)(download_dest E (getHelmDownloadURL E version) \<mapsto> Downloaded c)" and
    dirs3: "tool_dirs w3 = tool_dirs w" and
    trace3: "trace w3 = trace ?w2 @ [Download (getHelmDownloadURL E version),
                      Chmod (download_dest E (getHelmDownloadURL E version)),
                      ExtractZip (download_dest E (getHelmDownloadURL E version))]"
    by simp_all
  have d: "downloadHelm E w version = (Inl (Error ''cannot extract''), w3)"
    by (simp add: downloadHelm_miss [OF assms(1,2)] f r)
  show "fst (downloadHelm E w version) = Inl (Error ''cannot extract'')"
    by (simp add: d)
  show "files (snd (downloadHelm E w version)) =
           (files w)(download_dest E (getHelmDownloadURL E version) \<mapsto> Downloaded c)"
    by (simp add: d files3)
  show "tool_dirs (snd (downloadHelm E w version)) = tool_dirs w"
    by (simp add: d dirs3)
  show "trace (snd (downloadHelm E w version)) =
           trace w @ [CacheLookup helmToolName version,
                      Download (getHelmDownloadURL E version),
                      Chmod (download_dest E (getHelmDownloadURL E version)),
                      ExtractZip (download_dest E (getHelmDownloadURL E version))]"
    by (simp add: d trace3)
qed

lemma downloadHelm_miss_download_failed:
  assumes "version \<noteq> []" and "fst (toolCache_find E w helmToolName version) = Inr []"
    and "remote E (getHelmDownloadURL E version) = Inl ex"
  shows "downloadHelm E w version =
           (Inl (Error (''Failed to download Helm from location '' @ getHelmDownloadURL E version)),
            emit (Download (getHelmDownloadURL E version)) (emit (CacheLookup helmToolName version) w))"
  by (simp add: downloadHelm_miss [OF assms(1,2)] fetchAndCache_download_failed [OF assms(3)])

lemma getHelmDownloadURL_inj:
  "getHelmDownloadURL E a = getHelmDownloadURL E b \<Longrightarrow> a = b"
  by (simp add: getHelmDownloadURL_def split: if_splits)

lemma listing_url_is_not_archive_url: "helmAllReleasesUrl \<noteq> getHelmDownloadURL E version"
  by (simp add: getHelmDownloadURL_def helmAllReleasesUrl_def)

lemma trace_getStableHelmVersion:
  "trace (snd (getStableHelmVersion E w)) = trace w @ [Download helmAllReleasesUrl]"
  by (simp add: getStableHelmVersion_def downloadTool_def Let_def
      split: sum.splits prod.splits)

lemma tool_dirs_getStableHelmVersion:
  "tool_dirs (snd (getStableHelmVersion E w)) = tool_dirs w"
  by (simp add: getStableHelmVersion_def downloadTool_def Let_def
      split: sum.splits prod.splits)

lemma files_getStableHelmVersion:
  "files (snd (getStableHelmVersion E w)) =
     (case remote E helmAllReleasesUrl of
        Inl e \<Rightarrow> files w
      | Inr c \<Rightarrow> (files w)(download_dest E helmAllReleasesUrl \<mapsto> Downloaded c))"
  by (simp add: getStableHelmVersion_def downloadTool_def Let_def
      split: sum.splits prod.splits)

lemma new_events_append:
  "trace w' = trace w @ evs \<Longrightarrow> new_events w w' = evs"
  by (simp add: new_events_def)

text \<open>The outcomes of one call of \<open>downloadHelm\<close> with a non-empty version.\<close>

lemma downloadHelm_outcomes:
  assumes "version \<noteq> []"
  obtains
    (hit) root entries where
      "fst (toolCache_find E w helmToolName version) = Inr root" "root \<noteq> []"
      "files w root = Some (Folder entries)"
  | (failed) ex where
      "fst (toolCache_find E w helmToolName version) = Inr []"
      "remote E (getHelmDownloadURL E version) = Inl ex"
  | (not_zip) c where
      "fst (toolCache_find E w helmToolName version) = Inr []"
      "remote E (getHelmDownloadURL E version) = Inr c" "\<forall>t. c \<noteq> ZipArchive t"
  | (zip) t where
      "fst (toolCache_find E w helmToolName version) = Inr []"
      "remote E (getHelmDownloadURL E version) = Inr (ZipArchive t)"
proof -
  from toolCache_find_returns [OF helmToolName_nonempty assms, of E w] obtain root where
    root: "fst (toolCache_find E w helmToolName version) = Inr root"
    by blast
  show thesis
  proof (cases "root = []")
    case False
    from toolCache_find_found [OF root False] obtain entries where
      "files w root = Some (Folder entries)"
      by blast
    with root False show thesis by (rule hit)
  next
    case True
    with root have miss: "fst (toolCache_find E w helmToolName version) = Inr []"
      by simp
    show thesis
    proof (cases "remote E (getHelmDownloadURL E version)")
      case (Inl ex)
      with miss show thesis by (rule failed)
    next
      case (Inr c)
      show thesis
      proof (cases "\<exists>t. c = ZipArchive t")
        case True
        with Inr miss show thesis by (auto intro: zip)
      next
        case False
        then have "\<forall>t. c \<noteq> ZipArchive t" by blast
        with miss Inr show thesis by (rule not_zip)
      qed
    qed
  qed
qed

text \<open>The effects of one call of \<open>downloadHelm\<close> with a non-empty version: first the
  cache lookup with that version as key; after it every cache key is that version, every
  download is of that version's archive, and there is at most one download.\<close>

lemma downloadHelm_events:
  assumes "version \<noteq> []"
  shows "\<exists>evs. trace (snd (downloadHelm E w version)) =
                 trace w @ CacheLookup helmToolName version # evs \<and>
           list_all (\<lambda>ev. (cache_key_of ev = None \<or> cache_key_of ev = Some version) \<and>
                          (download_url_of ev = None \<or>
                           download_url_of ev = Some (getHelmDownloadURL E version))) evs \<and>
           length (filter (\<lambda>ev. download_url_of ev \<noteq> None) evs) \<le> 1"
  using assms
proof (cases rule: downloadHelm_outcomes [where E = E and w = w])
  case (hit root entries)
  from downloadHelm_hit(4) [OF assms hit] obtain evs where
    evs: "trace (snd (downloadHelm E w version)) = trace w @ CacheLookup helmToolName version # evs"
         "list_all (\<lambda>ev. cache_key_of ev = None \<and> download_url_of ev = None \<and> \<not> is_transfer ev) evs"
    by blast
  from evs(2) have "filter (\<lambda>ev. download_url_of ev \<noteq> None) evs = []"
    by (simp add: list_all_iff filter_empty_conv)
  with evs show ?thesis
    by (intro exI [of _ evs]) (simp add: list_all_iff)
next
  case (failed ex)
  show ?thesis
    by (rule exI [of _ "[Download (getHelmDownloadURL E version)]"])
      (simp add: downloadHelm_miss_download_failed [OF assms failed])
next
  case (not_zip c)
  from downloadHelm_miss_not_zip(4) [OF assms not_zip] show ?thesis
    by (intro exI [of _ "[Download (getHelmDownloadURL E version),
                      Chmod (download_dest E (getHelmDownloadURL E version)),
                      ExtractZip (download_dest E (getHelmDownloadURL E version))]"])
      simp
next
  case (zip t)
  from downloadHelm_miss_zip(4) [OF assms zip] obtain evs where
    evs: "trace (snd (downloadHelm E w version)) =
             trace w @ [CacheLookup helmToolName version,
                        Download (getHelmDownloadURL E version),
                        Chmod (download_dest E (getHelmDownloadURL E version)),
                        ExtractZip (download_dest E (getHelmDownloadURL E version)),
                        CacheDir (extract_dest E (download_dest E (getHelmDownloadURL E version)))
                          helmToolName version] @ evs"
         "list_all (\<lambda>ev. cache_key_of ev = None \<and> download_url_of ev = None \<and> \<not> is_transfer ev) evs"
    by blast
  from evs(2) have "filter (\<lambda>ev. download_url_of ev \<noteq> None) evs = []"
    by (simp add: list_all_iff filter_empty_conv)
  with evs show ?thesis
    by (intro exI [of _ "[Download (getHelmDownloadURL E version),
                        Chmod (download_dest E (getHelmDownloadURL E version)),
                        ExtractZip (download_dest E (getHelmDownloadURL E version)),
                        CacheDir (extract_dest E (download_dest E (getHelmDownloadURL E version)))
                          helmToolName version] @ evs"])
      (simp add: list_all_iff)
qed

text \<open>The errors one call of \<open>downloadHelm\<close> with a non-empty version can raise.\<close>

lemma downloadHelm_errors:
  assumes "version \<noteq> []" and "fst (downloadHelm E w version) = Inl e"
  shows "e = Error (''Failed to download Helm from location '' @ getHelmDownloadURL E version) \<or>
         e = Error ''cannot extract'' \<or>
         (\<exists>p. e = Error (''Helm executable not found in path '' @ p))"
  using assms(1)
proof (cases rule: downloadHelm_outcomes [where E = E and w = w])
  case (hit root entries)
  from downloadHelm_hit(1) [OF assms(1) hit] assms(2) show ?thesis
    by (auto simp: located_def split: list.splits if_splits)
next
  case (failed ex)
  from downloadHelm_miss_download_failed [OF assms(1) failed] assms(2) show ?thesis
    by simp
next
  case (not_zip c)
  from downloadHelm_miss_not_zip(1) [OF assms(1) not_zip] assms(2) show ?thesis
    by simp
next
  case (zip t)
  from downloadHelm_miss_zip(1) [OF assms(1) zip] assms(2) show ?thesis
    by (auto simp: located_def split: list.splits if_splits)
qed

lemma downloadHelm_empty_version:
  "downloadHelm E w [] =
     downloadHelm E (snd (getStableHelmVersion E w)) (fst (getStableHelmVersion E w))"
proof -
  have "fst (getStableHelmVersion E w) \<noteq> []"
    using getStableHelmVersion_starts_with_v [of E w] by (auto simp: startsWith_def)
  then show ?thesis
    by (simp add: downloadHelm_def split: prod.splits)
qed


lemma linux_env_latest: "fst (getStableHelmVersion linux_env fresh_world) = ''v3.5.3''"
proof -
  have r: "remote linux_env helmAllReleasesUrl =
             Inr (JsonReleases [Some ''v3.5.3'', None, Some ''v3.6.0-rc.1'', Some ''v3.2.1''])"
    by (simp add: linux_env_def)
  show ?thesis
    unfolding getStableHelmVersion_listing [OF r]
    by (simp add: linux_env_def stableHelmVersion_def sample_clean_def sample_gt_def
        sample_versions_def v_plus_def)
qed

lemma mirror_env_latest: "fst (getStableHelmVersion mirror_env fresh_world) = ''v3.5.3''"
proof -
  have r: "remote mirror_env helmAllReleasesUrl =
             Inr (JsonReleases [Some ''v3.5.3'', None, Some ''v3.6.0-rc.1'', Some ''v3.2.1''])"
    by (simp add: mirror_env_def)
  show ?thesis
    unfolding getStableHelmVersion_listing [OF r]
    by (simp add: mirror_env_def linux_env_def stableHelmVersion_def sample_clean_def sample_gt_def
        sample_versions_def v_plus_def)
qed

text \<open>
  C9, as the code has it. Called with an empty version, \<open>downloadHelm\<close> first runs
  global discovery, which never raises and gives a version that is not empty (it starts
  with "v"), and then goes on exactly as a call with that version on the host as
  discovery leaves it: its effects are the download of the release listing, then the
  cache lookup with the discovered version as key, then effects whose cache keys and
  download URLs are those of the discovered version. No cache key and no download URL is
  built from the empty string. On a cache hit, and after a fresh download of a zip
  archive, the result is the first match of the walk for the executable. The call can
  still fail, but only as acquisition of the discovered version fails: with the
  download error when the transfer fails, with the extraction error, or with the
  not-found error.
\<close>

theorem empty_version_uses_global_discovery:
  "(case getStableHelmVersion E w of
      (version, discovered) \<Rightarrow>
        version \<noteq> [] \<and> startsWith version ''v'' \<and>
        downloadHelm E w [] = downloadHelm E discovered version \<and>
        (\<exists>rest. new_events w (snd (downloadHelm E w [])) =
                  Download helmAllReleasesUrl # CacheLookup helmToolName version # rest \<and>
                list_all (\<lambda>ev. (cache_key_of ev = None \<or> cache_key_of ev = Some version) \<and>
                               (download_url_of ev = None \<or>
                                download_url_of ev = Some (getHelmDownloadURL E version))) rest) \<and>
        list_all (\<lambda>ev. cache_key_of ev \<noteq> Some [] \<and>
                       download_url_of ev \<noteq> Some (getHelmDownloadURL E []))
          (new_events w (snd (downloadHelm E w []))) \<and>
        (fst (toolCache_find E discovered helmToolName version) = Inr root \<and> root \<noteq> [] \<and>
         files discovered root = Some (Folder entries) \<and>
         walkSync E root entries [] (helmToolName @ getExecutableExtension E) = p # ps \<and> p \<noteq> [] \<longrightarrow>
           fst (downloadHelm E w []) = Inr p) \<and>
        (fst (toolCache_find E discovered helmToolName version) = Inr [] \<and>
         remote E (getHelmDownloadURL E version) = Inr (ZipArchive entries) \<and>
         walkSync E (cache_dest E helmToolName (cache_folder E version)) entries []
           (helmToolName @ getExecutableExtension E) = p # ps \<and> p \<noteq> [] \<longrightarrow>
           fst (downloadHelm E w []) = Inr p) \<and>
        (fst (toolCache_find E discovered helmToolName version) = Inr [] \<and>
         remote E (getHelmDownloadURL E version) = Inl ex \<longrightarrow>
           fst (downloadHelm E w []) =
             Inl (Error (''Failed to download Helm from location '' @ getHelmDownloadURL E version))) \<and>
        (fst (downloadHelm E w []) = Inl e \<longrightarrow>
           e = Error (''Failed to download Helm from location '' @ getHelmDownloadURL E version) \<or>
           e = Error ''cannot extract'' \<or>
           (\<exists>q. e = Error (''Helm executable not found in path '' @ q))))"
proof -
  obtain v d where g: "getStableHelmVersion E w = (v, d)"
    by (cases "getStableHelmVersion E w")
  then have v_def: "v = fst (getStableHelmVersion E w)" and d_def: "d = snd (getStableHelmVersion E w)"
    by simp_all
  have sv: "startsWith v ''v''"
    unfolding v_def by (rule getStableHelmVersion_starts_with_v)
  then have ne: "v \<noteq> []"
    by (auto simp: startsWith_def)
  have eq: "downloadHelm E w [] = downloadHelm E d v"
    unfolding v_def d_def by (rule downloadHelm_empty_version)
  from downloadHelm_events [OF ne, of E d] obtain evs where
    evs: "trace (snd (downloadHelm E d v)) = trace d @ CacheLookup helmToolName v # evs"
         "list_all (\<lambda>ev. (cache_key_of ev = None \<or> cache_key_of ev = Some v) \<and>
                         (download_url_of ev = None \<or>
                          download_url_of ev = Some (getHelmDownloadURL E v))) evs"
    by blast
  have td: "trace d = trace w @ [Download helmAllReleasesUrl]"
    unfolding d_def by (rule trace_getStableHelmVersion)
  have new: "new_events w (snd (downloadHelm E w [])) =
               Download helmAllReleasesUrl # CacheLookup helmToolName v # evs"
    by (rule new_events_append) (simp add: eq evs(1) td)
  have "cache_key_of ev \<noteq> Some [] \<and> download_url_of ev \<noteq> Some (getHelmDownloadURL E [])"
    if "(cache_key_of ev = None \<or> cache_key_of ev = Some v) \<and>
        (download_url_of ev = None \<or> download_url_of ev = Some (getHelmDownloadURL E v))" for ev
    using that ne getHelmDownloadURL_inj [of E v "[]"] by auto
  with evs(2) have "list_all (\<lambda>ev. cache_key_of ev \<noteq> Some [] \<and>
                       download_url_of ev \<noteq> Some (getHelmDownloadURL E [])) evs"
    unfolding list_all_iff by blast
  with ne listing_url_is_not_archive_url [of E "[]"]
  have clean: "list_all (\<lambda>ev. cache_key_of ev \<noteq> Some [] \<and>
                       download_url_of ev \<noteq> Some (getHelmDownloadURL E []))
                 (Download helmAllReleasesUrl # CacheLookup helmToolName v # evs)"
    by simp
  have hit: "fst (downloadHelm E w []) = Inr p"
    if "fst (toolCache_find E d helmToolName v) = Inr root \<and> root \<noteq> [] \<and>
        files d root = Some (Folder entries) \<and>
        walkSync E root entries [] (helmToolName @ getExecutableExtension E) = p # ps \<and> p \<noteq> []"
    using that downloadHelm_hit(1) [OF ne, of E d root entries]
    by (simp add: eq located_def)
  have zip: "fst (downloadHelm E w []) = Inr p"
    if "fst (toolCache_find E d helmToolName v) = Inr [] \<and>
        remote E (getHelmDownloadURL E v) = Inr (ZipArchive entries) \<and>
        walkSync E (cache_dest E helmToolName (cache_folder E v)) entries []
          (helmToolName @ getExecutableExtension E) = p # ps \<and> p \<noteq> []"
    using that downloadHelm_miss_zip(1) [OF ne, of E d entries]
    by (simp add: eq located_def)
  have failed: "fst (downloadHelm E w []) =
             Inl (Error (''Failed to download Helm from location '' @ getHelmDownloadURL E v))"
    if "fst (toolCache_find E d helmToolName v) = Inr [] \<and>
        remote E (getHelmDownloadURL E v) = Inl ex"
    using that downloadHelm_miss_download_failed [OF ne, of E d ex]
    by (simp add: eq)
  have errors: "e = Error (''Failed to download Helm from location '' @ getHelmDownloadURL E v) \<or>
           e = Error ''cannot extract'' \<or>
           (\<exists>q. e = Error (''Helm executable not found in path '' @ q))"
    if "fst (downloadHelm E w []) = Inl e"
    using that downloadHelm_errors [OF ne, of E d e] by (simp add: eq)
  from sv ne eq new evs(2) clean hit zip failed errors show ?thesis
    unfolding g by simp
qed


lemma fresh_world_after_discovery:
  assumes "remote E helmAllReleasesUrl = Inr c" and "download_dest E helmAllReleasesUrl = ''/tmp/download''"
    and "semver_clean E version = Some folder" and "semver_valid E folder" and "version \<noteq> []"
    and "cache_dest E helmToolName folder \<noteq> ''/tmp/download''"
  shows "fst (toolCache_find E (snd (getStableHelmVersion E fresh_world)) helmToolName version) = Inr []"
proof -
  have "files (snd (getStableHelmVersion E fresh_world)) (cache_dest E helmToolName folder) = None"
    using assms(1,2,6) by (simp add: files_getStableHelmVersion fresh_world_def)
  then have "\<not> is_cached_dir (snd (getStableHelmVersion E fresh_world)) (cache_dest E helmToolName folder)"
    by (simp add: is_cached_dir_def)
  with toolCache_find_explicit [OF helmToolName_nonempty assms(5,3,4)] show ?thesis
    by simp
qed

theorem empty_version_uses_global_discovery_witness:
  "fst (getStableHelmVersion mirror_env fresh_world) = ''v3.5.3'' \<and>
   fst (toolCache_find mirror_env (snd (getStableHelmVersion mirror_env fresh_world))
          helmToolName ''v3.5.3'') = Inr [] \<and>
   remote mirror_env ''https://get.helm.sh/helm-v3.5.3-linux-amd64.zip'' = Inr (ZipArchive helm_archive) \<and>
   fst (downloadHelm mirror_env fresh_world []) =
     Inr ''/opt/hostedtoolcache/helm/3.5.3/linux-amd64/helm''"
proof -
  let ?d = "snd (getStableHelmVersion mirror_env fresh_world)"
  have g: "getStableHelmVersion mirror_env fresh_world = (''v3.5.3'', ?d)"
    using mirror_env_latest by (simp add: prod_eq_iff)
  have c: "semver_clean mirror_env ''v3.5.3'' = Some ''3.5.3''"
    by (simp add: mirror_env_def linux_env_def sample_clean_def sample_versions_def)
  have v: "semver_valid mirror_env ''3.5.3''"
    by (simp add: mirror_env_def linux_env_def sample_valid_def sample_versions_def)
  have miss: "fst (toolCache_find mirror_env ?d helmToolName ''v3.5.3'') = Inr []"
    by (rule fresh_world_after_discovery [OF _ _ c v])
      (simp_all add: mirror_env_def linux_env_def helmToolName_def)
  have u: "getHelmDownloadURL mirror_env ''v3.5.3'' = ''https://get.helm.sh/helm-v3.5.3-linux-amd64.zip''"
    by (simp add: getHelmDownloadURL_def mirror_env_def linux_env_def)
  have zip: "remote mirror_env ''https://get.helm.sh/helm-v3.5.3-linux-amd64.zip'' =
               Inr (ZipArchive helm_archive)"
    by (simp add: mirror_env_def helmAllReleasesUrl_def)
  have f: "cache_folder mirror_env ''v3.5.3'' = ''3.5.3''"
    using c by (simp add: cache_folder_def)
  have walk: "walkSync mirror_env (cache_dest mirror_env helmToolName ''3.5.3'') helm_archive []
                (helmToolName @ getExecutableExtension mirror_env) =
              ''/opt/hostedtoolcache/helm/3.5.3/linux-amd64/helm'' # []"
    by (simp add: mirror_env_def linux_env_def helm_archive_def helmToolName_def
        getExecutableExtension_def startsWith_def)
  obtain d where d: "getStableHelmVersion mirror_env fresh_world = (''v3.5.3'', d)"
    using g by blast
  then have "d = ?d"
    by simp
  with miss have miss': "fst (toolCache_find mirror_env d helmToolName ''v3.5.3'') = Inr []"
    by simp
  have zip': "remote mirror_env (getHelmDownloadURL mirror_env ''v3.5.3'') = Inr (ZipArchive helm_archive)"
    using zip by (simp add: u)
  have walk': "walkSync mirror_env (cache_dest mirror_env helmToolName (cache_folder mirror_env ''v3.5.3''))
                 helm_archive [] (helmToolName @ getExecutableExtension mirror_env) =
               ''/opt/hostedtoolcache/helm/3.5.3/linux-amd64/helm'' # []"
    using walk by (simp add: f)
  have "fst (downloadHelm mirror_env fresh_world []) =
          Inr ''/opt/hostedtoolcache/helm/3.5.3/linux-amd64/helm''"
    using miss' zip' walk'
      empty_version_uses_global_discovery
        [where E = mirror_env and w = fresh_world and entries = helm_archive
           and p = "''/opt/hostedtoolcache/helm/3.5.3/linux-amd64/helm''" and ps = "[]"]
    unfolding d prod.case by blast
  with mirror_env_latest miss zip show ?thesis
    by simp
qed

text \<open>On the sample runner discovery gives "v3.5.3", whose archive the download host
  does not have: the call with the empty version fails.\<close>

theorem empty_version_counterexample:
  "fst (downloadHelm linux_env fresh_world []) =
     Inl (Error ''Failed to download Helm from location https://get.helm.sh/helm-v3.5.3-linux-amd64.zip'')"
proof -
  let ?d = "snd (getStableHelmVersion linux_env fresh_world)"
  have c: "semver_clean linux_env ''v3.5.3'' = Some ''3.5.3''"
    by (simp add: linux_env_def sample_clean_def sample_versions_def)
  have v: "semver_valid linux_env ''3.5.3''"
    by (simp add: linux_env_def sample_valid_def sample_versions_def)
  have miss: "fst (toolCache_find linux_env ?d helmToolName ''v3.5.3'') = Inr []"
    by (rule fresh_world_after_discovery [OF _ _ c v])
      (simp_all add: linux_env_def helmToolName_def)
  have u: "getHelmDownloadURL linux_env ''v3.5.3'' = ''https://get.helm.sh/helm-v3.5.3-linux-amd64.zip''"
    by (simp add: getHelmDownloadURL_def linux_env_def)
  have gone: "remote linux_env (getHelmDownloadURL linux_env ''v3.5.3'') =
                Inl (Error ''Unexpected HTTP response: 404'')"
    unfolding u by (simp add: linux_env_def helmAllReleasesUrl_def)
  have "fst (downloadHelm linux_env ?d ''v3.5.3'') =
          Inl (Error (''Failed to download Helm from location '' @
                      getHelmDownloadURL linux_env ''v3.5.3''))"
    by (simp add: downloadHelm_miss_download_failed [OF _ miss gone])
  then show ?thesis
    by (simp add: downloadHelm_empty_version linux_env_latest u)
qed

text \<open>
  C8. Acquisition failures carry their context and reach the entry point. With a
  non-empty version that the cache lookup does not find, a failed transfer makes
  \<open>downloadHelm\<close> raise "Failed to download Helm from location" followed by the download
  URL. When the directory searched holds no file with the executable's name, \<open>findHelm\<close>
  raises "Helm executable not found in path" followed by that directory, and so does
  \<open>downloadHelm\<close> with the cache directory, both on a cache hit and after a fresh
  download. Whatever error \<open>downloadHelm\<close> raises is the result of \<open>run\<close>.
\<close>

theorem acquisition_failures_are_fatal:
  "(version \<noteq> [] \<and> fst (toolCache_find E w helmToolName version) = Inr [] \<and>
    remote E (getHelmDownloadURL E version) = Inl ex \<longrightarrow>
      fst (downloadHelm E w version) =
        Inl (Error (''Failed to download Helm from location '' @ getHelmDownloadURL E version))) \<and>
   (files w rootFolder = Some (Folder entries) \<and>
    \<not> containsFile entries (helmToolName @ getExecutableExtension E) \<longrightarrow>
      fst (findHelm E w rootFolder) =
        Inl (Error (''Helm executable not found in path '' @ rootFolder))) \<and>
   (version \<noteq> [] \<and> fst (toolCache_find E w helmToolName version) = Inr rootFolder \<and>
    rootFolder \<noteq> [] \<and> files w rootFolder = Some (Folder entries) \<and>
    \<not> containsFile entries (helmToolName @ getExecutableExtension E) \<longrightarrow>
      fst (downloadHelm E w version) =
        Inl (Error (''Helm executable not found in path '' @ rootFolder))) \<and>
   (version \<noteq> [] \<and> fst (toolCache_find E w helmToolName version) = Inr [] \<and>
    remote E (getHelmDownloadURL E version) = Inr (ZipArchive entries) \<and>
    \<not> containsFile entries (helmToolName @ getExecutableExtension E) \<longrightarrow>
      fst (downloadHelm E w version) =
        Inl (Error (''Helm executable not found in path '' @
                    cache_dest E helmToolName (cache_folder E version)))) \<and>
   (getInput E ''version'' = Inr given \<and> resolveVersion E w given = (Inr version, w') \<and>
    fst (downloadHelm E w' version) = Inl e \<longrightarrow>
      fst (run E w) = Inl e)"
proof -
  have nf: "located E root entries = Inl (Error (''Helm executable not found in path '' @ root))"
    if "\<not> containsFile entries (helmToolName @ getExecutableExtension E)" for root
    using that walkSync_empty [of E root entries "helmToolName @ getExecutableExtension E"]
    by (simp add: located_def)
  have a: "fst (downloadHelm E w version) =
        Inl (Error (''Failed to download Helm from location '' @ getHelmDownloadURL E version))"
    if "version \<noteq> [] \<and> fst (toolCache_find E w helmToolName version) = Inr [] \<and>
        remote E (getHelmDownloadURL E version) = Inl ex"
    using that by (simp add: downloadHelm_miss_download_failed [of version E w ex])
  have b: "fst (findHelm E w rootFolder) =
        Inl (Error (''Helm executable not found in path '' @ rootFolder))"
    if "files w rootFolder = Some (Folder entries) \<and>
        \<not> containsFile entries (helmToolName @ getExecutableExtension E)"
    using that walkSync_empty [of E rootFolder entries "helmToolName @ getExecutableExtension E"]
    by (simp add: findHelm_Folder [of w rootFolder entries])
  have c: "fst (downloadHelm E w version) =
        Inl (Error (''Helm executable not found in path '' @ rootFolder))"
    if "version \<noteq> [] \<and> fst (toolCache_find E w helmToolName version) = Inr rootFolder \<and>
        rootFolder \<noteq> [] \<and> files w rootFolder = Some (Folder entries) \<and>
        \<not> containsFile entries (helmToolName @ getExecutableExtension E)"
    using that downloadHelm_hit(1) [of version E w rootFolder entries] nf by simp
  have d: "fst (downloadHelm E w version) =
        Inl (Error (''Helm executable not found in path '' @
                    cache_dest E helmToolName (cache_folder E version)))"
    if "version \<noteq> [] \<and> fst (toolCache_find E w helmToolName version) = Inr [] \<and>
        remote E (getHelmDownloadURL E version) = Inr (ZipArchive entries) \<and>
        \<not> containsFile entries (helmToolName @ getExecutableExtension E)"
    using that downloadHelm_miss_zip(1) [of version E w entries] nf by simp
  have e: "fst (run E w) = Inl e"
    if "getInput E ''version'' = Inr given \<and> resolveVersion E w given = (Inr version, w') \<and>
        fst (downloadHelm E w' version) = Inl e"
    using that by (auto simp: run_def split: prod.splits sum.splits)
  from a b c d e show ?thesis
    by blast
qed

theorem acquisition_failures_are_fatal_witness:
  "getInput unreleased_env ''version'' = Inr ''v9.9.9'' \<and>
   remote unreleased_env ''https://get.helm.sh/helm-v9.9.9-linux-amd64.zip'' =
     Inl (Error ''Unexpected HTTP response: 404'') \<and>
   fst (run unreleased_env fresh_world) =
     Inl (Error ''Failed to download Helm from location https://get.helm.sh/helm-v9.9.9-linux-amd64.zip'') \<and>
   files stale_world ''/opt/hostedtoolcache/helm/3.5.0'' = Some (Folder [(''README.md'', File)]) \<and>
   fst (findHelm linux_env stale_world ''/opt/hostedtoolcache/helm/3.5.0'') =
     Inl (Error ''Helm executable not found in path /opt/hostedtoolcache/helm/3.5.0'') \<and>
   fst (run linux_env stale_world) =
     Inl (Error ''Helm executable not found in path /opt/hostedtoolcache/helm/3.5.0'')"
proof -
  have u: "getHelmDownloadURL unreleased_env ''v9.9.9'' = ''https://get.helm.sh/helm-v9.9.9-linux-amd64.zip''"
    by (simp add: getHelmDownloadURL_def unreleased_env_def linux_env_def)
  have h1: "getInput unreleased_env ''version'' = Inr ''v9.9.9''"
    by (simp add: unreleased_env_def)
  have h2: "resolveVersion unreleased_env fresh_world ''v9.9.9'' = (Inr ''v9.9.9'', fresh_world)"
    by (simp add: resolveVersion_def legacyMode_def unreleased_env_def linux_env_def
        startsWith_def toLocaleLowerCase_def toLowerChar_def LATEST_HELM3_VERSION_def
        LATEST_HELM2_VERSION_def)
  have c9: "semver_clean unreleased_env ''v9.9.9'' = Some ''9.9.9''"
    by (simp add: unreleased_env_def linux_env_def sample_clean_def sample_versions_def)
  have v9: "semver_valid unreleased_env ''9.9.9''"
    by (simp add: unreleased_env_def linux_env_def sample_valid_def sample_versions_def)
  have h3: "fst (toolCache_find unreleased_env fresh_world helmToolName ''v9.9.9'') = Inr []"
    using toolCache_find_explicit [OF helmToolName_nonempty _ c9 v9, of fresh_world]
    by (simp add: is_cached_dir_def fresh_world_def)
  have h4: "remote unreleased_env ''https://get.helm.sh/helm-v9.9.9-linux-amd64.zip'' =
              Inl (Error ''Unexpected HTTP response: 404'')"
    by (simp add: unreleased_env_def linux_env_def helmAllReleasesUrl_def)
  have d1: "fst (downloadHelm unreleased_env fresh_world ''v9.9.9'') =
              Inl (Error (''Failed to download Helm from location '' @
                          ''https://get.helm.sh/helm-v9.9.9-linux-amd64.zip''))"
    using h3 h4 u
      acquisition_failures_are_fatal
        [where E = unreleased_env and w = fresh_world and version = "''v9.9.9''"
           and ex = "Error ''Unexpected HTTP response: 404''"]
    by simp
  have r1: "fst (run unreleased_env fresh_world) =
              Inl (Error (''Failed to download Helm from location '' @
                          ''https://get.helm.sh/helm-v9.9.9-linux-amd64.zip''))"
    using h1 h2 d1
      acquisition_failures_are_fatal
        [where E = unreleased_env and w = fresh_world and w' = fresh_world
           and version = "''v9.9.9''" and given = "''v9.9.9''"]
    by blast
  have c5: "semver_clean linux_env ''v3.5.0'' = Some ''3.5.0''"
    by (simp add: linux_env_def sample_clean_def sample_versions_def)
  have v5: "semver_valid linux_env ''3.5.0''"
    by (simp add: linux_env_def sample_valid_def sample_versions_def)
  have c: "cache_dest linux_env helmToolName ''3.5.0'' = ''/opt/hostedtoolcache/helm/3.5.0''"
    by (simp add: linux_env_def helmToolName_def)
  have f: "files stale_world ''/opt/hostedtoolcache/helm/3.5.0'' = Some (Folder [(''README.md'', File)])"
    by (simp add: stale_world_def)
  have found: "fst (toolCache_find linux_env stale_world helmToolName ''v3.5.0'') =
                 Inr ''/opt/hostedtoolcache/helm/3.5.0''"
    using toolCache_find_explicit [OF helmToolName_nonempty _ c5 v5, of stale_world] f
    by (simp add: c is_cached_dir_def)
  have n: "\<not> containsFile [(''README.md'', File)] (helmToolName @ getExecutableExtension linux_env)"
    by (simp add: helmToolName_def)
  have g1: "getInput linux_env ''version'' = Inr ''latest''"
    by (simp add: linux_env_def)
  have g2: "resolveVersion linux_env stale_world ''latest'' = (Inr ''v3.5.0'', stale_world)"
    using linux_env_v3
    by (simp add: resolveVersion_def legacyMode_def linux_env_def toLocaleLowerCase_def
        toLowerChar_def)
  have b2: "fst (findHelm linux_env stale_world ''/opt/hostedtoolcache/helm/3.5.0'') =
              Inl (Error (''Helm executable not found in path '' @ ''/opt/hostedtoolcache/helm/3.5.0''))"
    using f n
      acquisition_failures_are_fatal
        [where E = linux_env and w = stale_world and entries = "[(''README.md'', File)]"
           and rootFolder = "''/opt/hostedtoolcache/helm/3.5.0''"]
    by blast
  have d2: "fst (downloadHelm linux_env stale_world ''v3.5.0'') =
              Inl (Error (''Helm executable not found in path '' @ ''/opt/hostedtoolcache/helm/3.5.0''))"
    using found f n
      acquisition_failures_are_fatal
        [where E = linux_env and w = stale_world and version = "''v3.5.0''"
           and entries = "[(''README.md'', File)]"
           and rootFolder = "''/opt/hostedtoolcache/helm/3.5.0''"]
    by simp
  have r2: "fst (run linux_env stale_world) =
              Inl (Error (''Helm executable not found in path '' @ ''/opt/hostedtoolcache/helm/3.5.0''))"
    using g1 g2 d2
      acquisition_failures_are_fatal
        [where E = linux_env and w = stale_world and w' = stale_world
           and version = "''v3.5.0''" and given = "''latest''"]
    by blast
  from h1 h4 r1 f b2 r2 show ?thesis
    by simp
qed


subsection \<open>Repeated acquisition\<close>










end
